theory Spec2Isabelle
  imports Complex_Main
begin

section \<open>Hex colour strings (src/utils/colorUtils.ts)\<close>

text \<open>
  A JavaScript string is modelled as a \<^typ>\<open>string\<close>. The regular expression of
  \<open>isValidHex\<close>, \<^verbatim>\<open>/^#?([0-9A-Fa-f]{3}){1,2}$/i\<close>, accepts an optional \<open>#\<close> followed by
  exactly three or exactly six hexadecimal digits, and nothing else.
\<close>

definition isHexDigit :: "char \<Rightarrow> bool" where
  "isHexDigit ch \<longleftrightarrow> ch \<in> set ''0123456789ABCDEFabcdef''"

definition isUpperHexDigit :: "char \<Rightarrow> bool" where
  "isUpperHexDigit ch \<longleftrightarrow> ch \<in> set ''0123456789ABCDEF''"

definition startsWithHash :: "string \<Rightarrow> bool" where
  \<comment> \<open>\<open>hex.startsWith('#')\<close>\<close>
  "startsWithHash hex = (case hex of [] \<Rightarrow> False | ch # _ \<Rightarrow> ch = CHR ''#'')"

definition hexDigits :: "string \<Rightarrow> string" where
  \<comment> \<open>what the regular expression reads after its optional \<open>#\<close>\<close>
  "hexDigits hex = (if startsWithHash hex then tl hex else hex)"

definition isValidHex :: "string \<Rightarrow> bool" where
  "isValidHex hex \<longleftrightarrow>
     (length (hexDigits hex) = 3 \<or> length (hexDigits hex) = 6) \<and>
     list_all isHexDigit (hexDigits hex)"

definition toUpperCaseChar :: "char \<Rightarrow> char" where
  \<comment> \<open>the letters a to z; \<open>toUpperCase\<close> is only ever applied to a string that passed
      \<open>isValidHex\<close>, which holds no other letter\<close>
  "toUpperCaseChar ch =
     (case map_of (zip ''abcdefghijklmnopqrstuvwxyz'' ''ABCDEFGHIJKLMNOPQRSTUVWXYZ'') ch of
        None \<Rightarrow> ch
      | Some u \<Rightarrow> u)"

definition toUpperCase :: "string \<Rightarrow> string" where
  "toUpperCase s = map toUpperCaseChar s"

definition normalizeHex :: "string \<Rightarrow> string" where
  "normalizeHex hex =
     (let cleaned = (if startsWithHash hex then hex else CHR ''#'' # hex)
      in if \<not> isValidHex cleaned then ''#FFFFFF'' else toUpperCase cleaned)"

section \<open>JavaScript numbers\<close>

text \<open>
  A JavaScript number is a double: a finite value, one of the two infinities, or NaN.
  The finite values are modelled by the reals they denote. \<open>Math.round\<close> returns the
  closest integer and rounds a tie upwards; \<open>Math.min\<close> and \<open>Math.max\<close> return NaN as
  soon as one argument is NaN. These three are exact on doubles.
\<close>

datatype jsnum = Num real | PosInf | NegInf | NaN

definition roundR :: "real \<Rightarrow> real" where
  \<comment> \<open>\<open>Math.round\<close> on a finite number\<close>
  "roundR x = of_int \<lfloor>x + 1 / 2\<rfloor>"

fun Math_round :: "jsnum \<Rightarrow> jsnum" where
  "Math_round (Num x) = Num (roundR x)"
| "Math_round PosInf = PosInf"
| "Math_round NegInf = NegInf"
| "Math_round NaN = NaN"

fun Math_min :: "jsnum \<Rightarrow> jsnum \<Rightarrow> jsnum" where
  "Math_min NaN _ = NaN"
| "Math_min _ NaN = NaN"
| "Math_min NegInf _ = NegInf"
| "Math_min _ NegInf = NegInf"
| "Math_min PosInf b = b"
| "Math_min a PosInf = a"
| "Math_min (Num a) (Num b) = Num (min a b)"

fun Math_max :: "jsnum \<Rightarrow> jsnum \<Rightarrow> jsnum" where
  "Math_max NaN _ = NaN"
| "Math_max _ NaN = NaN"
| "Math_max PosInf _ = PosInf"
| "Math_max _ PosInf = PosInf"
| "Math_max NegInf b = b"
| "Math_max a NegInf = a"
| "Math_max (Num a) (Num b) = Num (max a b)"

text \<open>
  The other arithmetic of the code (\<open>+\<close>, \<open>-\<close>, \<open>*\<close>, \<open>/\<close> and decimal literals) is
  inexact: JavaScript returns the double nearest to the exact result. The functions
  below take that rounding as a parameter \<open>fl\<close> and wrap every such operation in it, so
  that nothing proved of them depends on how a particular result is rounded.
  \<open>fl_ok\<close> collects what the proofs use of it, all of which round-to-nearest on doubles
  satisfies: it is monotone, it leaves 0, 1 and 100 alone, and the difference of 1 and a
  double is rounded to zero only when that double is 1. \<open>exact\<close> is the rounding that
  changes nothing; concrete evaluations use it.
\<close>

definition fl_ok :: "(real \<Rightarrow> real) \<Rightarrow> bool" where
  "fl_ok fl \<longleftrightarrow>
     (\<forall>x y. x \<le> y \<longrightarrow> fl x \<le> fl y) \<and> fl 0 = 0 \<and> fl 1 = 1 \<and> fl 100 = 100 \<and>
     (\<forall>x. fl (1 - fl x) = 0 \<longrightarrow> fl x = 1)"

definition exact :: "real \<Rightarrow> real" where
  "exact x = x"

section \<open>Recipes (src/types.ts)\<close>

record CmykValues =
  cmyk_c :: jsnum
  cmyk_m :: jsnum
  cmyk_y :: jsnum
  cmyk_k :: jsnum

record StandardAuto = CmykValues +
  description :: string

record SmartPrintRecipe = CmykValues +
  modifications_made :: string
  paper_type :: string

record Conversions =
  standard_auto :: StandardAuto
  smart_print_recipe :: SmartPrintRecipe

record PrintConversion =
  input_hex :: string
  conversions :: Conversions

section \<open>Decoding a colour (hexToRgb, getHue)\<close>

definition hexVal :: "char \<Rightarrow> nat option" where
  "hexVal ch =
     map_of (zip ''0123456789ABCDEFabcdef''
       [0, 1, 2, 3, 4, 5, 6, 7, 8, 9, 10, 11, 12, 13, 14, 15, 10, 11, 12, 13, 14, 15]) ch"

fun parseDigits :: "nat \<Rightarrow> string \<Rightarrow> nat option" where
  "parseDigits acc [] = Some acc"
| "parseDigits acc (ch # s) =
     (case hexVal ch of None \<Rightarrow> None | Some d \<Rightarrow> parseDigits (16 * acc + d) s)"

definition parseInt16 :: "string \<Rightarrow> nat option" where
  \<comment> \<open>\<open>parseInt(s, 16)\<close> on a non-empty string of hexadecimal digits. \<open>None\<close> is every
      other string, which the model does not follow further (JavaScript would accept a
      sign, a \<open>0x\<close> prefix or a leading run of digits there, or give NaN): lemma
      \<open>hexToRgb_normalizeHex\<close> shows that the callers never ask for one.\<close>
  "parseInt16 s = (if s = [] then None else parseDigits 0 s)"

fun removeFirstHash :: "string \<Rightarrow> string" where
  \<comment> \<open>\<open>hex.replace('#', '')\<close>: the first occurrence only\<close>
  "removeFirstHash [] = []"
| "removeFirstHash (ch # s) = (if ch = CHR ''#'' then s else ch # removeFirstHash s)"

definition hexToRgb :: "string \<Rightarrow> (nat \<times> nat \<times> nat) option" where
  "hexToRgb hex =
     (let color = removeFirstHash hex;
          color = (if length color = 3 then concat (map (\<lambda>ch. [ch, ch]) color) else color)
      in case (parseInt16 (take 2 color), parseInt16 (take 2 (drop 2 color)),
               parseInt16 (take 2 (drop 4 color))) of
           (Some r, Some g, Some b) \<Rightarrow> Some (r, g, b)
         | _ \<Rightarrow> None)"

definition getHue :: "(real \<Rightarrow> real) \<Rightarrow> real \<Rightarrow> real \<Rightarrow> real \<Rightarrow> real" where
  "getHue fl r0 g0 b0 =
     (let r = fl (r0 / 255); g = fl (g0 / 255); b = fl (b0 / 255);
          mx = max r (max g b); mn = min r (min g b);
          h = (if mx \<noteq> mn then
                 let d = fl (mx - mn);
                     h = (if mx = r then fl (fl (fl (g - b) / d) + (if g < b then 6 else 0))
                          else if mx = g then fl (fl (fl (b - r) / d) + 2)
                          else fl (fl (fl (r - g) / d) + 4))
                 in fl (h / 6)
               else 0)
      in fl (h * 360))"

section \<open>The deterministic conversion and the heuristic recipe (getPrintConversions)\<close>

text \<open>
  The standard conversion is written twice in the source, with the same expressions: in
  \<open>getPrintConversions\<close> and in \<open>parseAiResponse\<close>. \<open>standardCmyk\<close> is that computation;
  its result is \<open>(cStd, mStd, yStd, Math.round(kStd * 100))\<close>.
\<close>

definition standardCmyk :: "(real \<Rightarrow> real) \<Rightarrow> nat \<Rightarrow> nat \<Rightarrow> nat \<Rightarrow> real \<times> real \<times> real \<times> real" where
  "standardCmyk fl r g b =
     (let rPrime = fl (real r / 255); gPrime = fl (real g / 255); bPrime = fl (real b / 255);
          kStd = fl (1 - max rPrime (max gPrime bPrime));
          cStd = (if kStd = 1 then 0
                  else roundR (fl (fl (fl (fl (1 - rPrime) - kStd) / fl (1 - kStd)) * 100)));
          mStd = (if kStd = 1 then 0
                  else roundR (fl (fl (fl (fl (1 - gPrime) - kStd) / fl (1 - kStd)) * 100)));
          yStd = (if kStd = 1 then 0
                  else roundR (fl (fl (fl (fl (1 - bPrime) - kStd) / fl (1 - kStd)) * 100)))
      in (cStd, mStd, yStd, roundR (fl (kStd * 100))))"

definition standardDescription :: string where
  "standardDescription = ''Standard mathematical conversion. May appear duller on paper.''"

datatype rule = RichBlack | AntiMud | AntiPurple | CleanGreen | NoRule

definition selectRule :: "string \<Rightarrow> real \<Rightarrow> rule" where
  \<comment> \<open>the conditions of the \<open>if\<close> / \<open>else if\<close> chain, in the order of the source\<close>
  "selectRule normalized hue =
     (if normalized = ''#000000'' then RichBlack
      else if (hue \<ge> 0 \<and> hue \<le> 50) \<or> (hue \<ge> 330 \<and> hue \<le> 360) then AntiMud
      else if hue \<ge> 190 \<and> hue \<le> 260 then AntiPurple
      else if hue \<ge> 70 \<and> hue \<le> 165 then CleanGreen
      else NoRule)"

definition smartRecipe ::
  "(real \<Rightarrow> real) \<Rightarrow> rule \<Rightarrow> real \<Rightarrow> real \<Rightarrow> real \<Rightarrow> real \<Rightarrow> SmartPrintRecipe" where
  \<comment> \<open>the bodies of the chain; \<open>NoRule\<close> keeps the initial values of \<open>cSmart\<close>, \<open>mSmart\<close>,
      \<open>ySmart\<close>, \<open>kSmart\<close> and \<open>mods\<close>\<close>
  "smartRecipe fl rl cStd mStd yStd kFinalStd =
     (case rl of
        RichBlack \<Rightarrow>
          \<lparr>cmyk_c = Num 60, cmyk_m = Num 40, cmyk_y = Num 40, cmyk_k = Num 100,
           modifications_made = ''Rich Black mix applied for deeper, professional coverage.'',
           paper_type = ''Regular Stock''\<rparr>
      | AntiMud \<Rightarrow>
          \<lparr>cmyk_c = Num 0,
           cmyk_m = Num (min 100 (roundR (fl (mStd * fl (12 / 10))))),
           cmyk_y = Num (min 100 (roundR (fl (yStd * fl (115 / 100))))),
           cmyk_k = Num 0,
           modifications_made =
             ''Removed Cyan/Black to prevent browning; boosted vibrancy for print.'',
           paper_type = ''Regular Stock''\<rparr>
      | AntiPurple \<Rightarrow>
          \<lparr>cmyk_c = Num 100,
           cmyk_m = Num (min 70 mStd),
           cmyk_y = Num yStd,
           cmyk_k = Num (max 5 (min 15 (fl (kFinalStd + 5)))),
           modifications_made =
             ''Capped Magenta to prevent purple shift; boosted Cyan and added depth Black.'',
           paper_type = ''Regular Stock''\<rparr>
      | CleanGreen \<Rightarrow>
          \<lparr>cmyk_c = Num (roundR (fl (cStd * fl (9 / 10)))),
           cmyk_m = Num 0,
           cmyk_y = Num 100,
           cmyk_k = Num 0,
           modifications_made =
             ''Removed Magenta/Black to prevent mudding; relied on heavy Cyan/Yellow mix.'',
           paper_type = ''Regular Stock''\<rparr>
      | NoRule \<Rightarrow>
          \<lparr>cmyk_c = Num cStd, cmyk_m = Num mStd, cmyk_y = Num yStd, cmyk_k = Num kFinalStd,
           modifications_made = ''Standard conversion applied.'',
           paper_type = ''Regular Stock''\<rparr>)"

definition nanConversion :: "string \<Rightarrow> PrintConversion" where
  \<comment> \<open>the case that \<open>hexToRgb\<close> does not decode, which is never reached: \<open>normalizeHex\<close>
      only returns strings that decode (lemma \<open>hexToRgb_normalizeHex\<close>). The value is what
      the arithmetic leaves when \<open>r\<close>, \<open>g\<close> and \<open>b\<close> are NaN: the \<open>switch\<close> of \<open>getHue\<close>
      matches no case, so the hue is 0 and the second branch is taken.\<close>
  "nanConversion normalized =
     \<lparr>input_hex = normalized,
      conversions =
        \<lparr>standard_auto =
           \<lparr>cmyk_c = NaN, cmyk_m = NaN, cmyk_y = NaN, cmyk_k = NaN,
            description = standardDescription\<rparr>,
         smart_print_recipe =
           \<lparr>cmyk_c = Num 0, cmyk_m = NaN, cmyk_y = NaN, cmyk_k = Num 0,
            modifications_made =
              ''Removed Cyan/Black to prevent browning; boosted vibrancy for print.'',
            paper_type = ''Regular Stock''\<rparr>\<rparr>\<rparr>"

definition getPrintConversions :: "(real \<Rightarrow> real) \<Rightarrow> string \<Rightarrow> PrintConversion" where
  "getPrintConversions fl hex =
     (let normalized = normalizeHex hex
      in case hexToRgb normalized of
           None \<Rightarrow> nanConversion normalized
         | Some (r, g, b) \<Rightarrow>
             (case standardCmyk fl r g b of
                (cStd, mStd, yStd, kFinalStd) \<Rightarrow>
                  let hue = getHue fl (real r) (real g) (real b)
                  in \<lparr>input_hex = normalized,
                      conversions =
                        \<lparr>standard_auto =
                           \<lparr>cmyk_c = Num cStd, cmyk_m = Num mStd, cmyk_y = Num yStd,
                            cmyk_k = Num kFinalStd, description = standardDescription\<rparr>,
                         smart_print_recipe =
                           smartRecipe fl (selectRule normalized hue) cStd mStd yStd
                             kFinalStd\<rparr>\<rparr>))"

definition isInk :: "jsnum \<Rightarrow> bool" where
  \<comment> \<open>an integer from 0 to 100\<close>
  "isInk n = (case n of Num x \<Rightarrow> 0 \<le> x \<and> x \<le> 100 \<and> of_int \<lfloor>x\<rfloor> = x | _ \<Rightarrow> False)"

definition cmyk4 :: "'a CmykValues_scheme \<Rightarrow> jsnum \<times> jsnum \<times> jsnum \<times> jsnum" where
  "cmyk4 v = (cmyk_c v, cmyk_m v, cmyk_y v, cmyk_k v)"

definition standardOf :: "'a PrintConversion_scheme \<Rightarrow> StandardAuto" where
  "standardOf p = standard_auto (conversions p)"

definition smartOf :: "'a PrintConversion_scheme \<Rightarrow> SmartPrintRecipe" where
  "smartOf p = smart_print_recipe (conversions p)"

section \<open>The recipe service (src/utils/aiColorService.ts)\<close>

datatype Source = SrcAi | SrcHeuristic | SrcCache

record AiPrintResult = PrintConversion +
  source :: Source

text \<open>
  A JavaScript \<open>Map\<close> keeps its keys in insertion order, and \<open>set\<close> on a key that is
  present replaces the value where it stands. It is modelled as an association list:
  \<open>map_set\<close> is \<open>Map.prototype.set\<close>, \<^const>\<open>map_of\<close> is \<open>get\<close>.
\<close>

fun map_set :: "string \<Rightarrow> 'v \<Rightarrow> (string \<times> 'v) list \<Rightarrow> (string \<times> 'v) list" where
  "map_set k v [] = [(k, v)]"
| "map_set k v ((k', v') # m) = (if k' = k then (k, v) # m else (k', v') # map_set k v m)"

definition map_has :: "string \<Rightarrow> (string \<times> 'v) list \<Rightarrow> bool" where
  "map_has k m \<longleftrightarrow> map_of m k \<noteq> None"

text \<open>
  The module state: the in-memory \<open>cache\<close> and the item of \<open>localStorage\<close> under
  \<open>CACHE_KEY\<close>, which is absent or holds the entries last written by \<open>persistCache\<close>
  (the JSON text is not modelled). The environment gives \<open>process.env.GEMINI_API_KEY\<close>
  and tells whether \<open>localStorage.setItem\<close> throws.
\<close>

record service =
  cache :: "(string \<times> AiPrintResult) list"
  storage :: "(string \<times> AiPrintResult) list option"

record environment =
  apiKey :: "string option"
  storage_full :: bool


definition persistCache :: "environment \<Rightarrow> service \<Rightarrow> service" where
  \<comment> \<open>\<open>slice(-200)\<close> keeps the last 200 entries; a throwing \<open>setItem\<close> is swallowed\<close>
  "persistCache env st =
     (if storage_full env then st
      else st\<lparr>storage := Some (drop (length (cache st) - 200) (cache st))\<rparr>)"

definition clamp :: "jsnum \<Rightarrow> jsnum" where
  "clamp n = Math_max (Num 0) (Math_min (Num 100) (Math_round n))"

definition heuristicFallback :: "(real \<Rightarrow> real) \<Rightarrow> string \<Rightarrow> AiPrintResult" where
  "heuristicFallback fl hex =
     (let p = getPrintConversions fl hex
      in \<lparr>input_hex = input_hex p, conversions = conversions p, source = SrcHeuristic\<rparr>)"

fun joinWith :: "string \<Rightarrow> string list \<Rightarrow> string" where
  \<comment> \<open>\<open>Array.prototype.join\<close>\<close>
  "joinWith sep [] = []"
| "joinWith sep [x] = x"
| "joinWith sep (x # xs) = x @ sep @ joinWith sep xs"

definition quoted :: "string \<Rightarrow> string" where
  "quoted h = [CHR 0x22] @ h @ [CHR 0x22]"

definition hexList :: "string list \<Rightarrow> string" where
  "hexList hexCodes = joinWith '', '' (map quoted hexCodes)"

definition buildPrompt :: "string list \<Rightarrow> string" where
  "buildPrompt hexCodes =
     joinWith [CHR 0x0A]
       [''You are an expert print color technician specializing in offset and digital CMYK printing. For each hex color below, provide an optimized CMYK recipe for professional printing.'',
        [],
        ''Hex codes: ['' @ hexList hexCodes @ '']'',
        [],
        ''For EACH color provide:'',
        ''1. Optimized C, M, Y, K values (integers 0-100) for vibrant print reproduction. Apply professional knowledge:'',
        ''   - Rich black (C60/M40/Y40/K100) for pure black'',
        ''   - Remove cyan from warm colors to prevent mudding/browning'',
        ''   - Cap magenta for blues to prevent purple shift'',
        ''   - Remove magenta from greens to keep them clean'',
        ''   - Keep total ink coverage under 300%'',
        ''   - Account for CMYK gamut being smaller than RGB'',
        ''2. A 1-2 sentence explanation of your modifications for a designer audience'',
        ''3. Recommended paper type'',
        [],
        ''Respond with ONLY a JSON array, no markdown, no extra text. Each element:'',
        ''{'' @ quoted ''hex'' @ '':'' @ quoted ''#XXXXXX'' @ '','' @ quoted ''c'' @ '':0,''
          @ quoted ''m'' @ '':0,'' @ quoted ''y'' @ '':0,'' @ quoted ''k'' @ '':0,''
          @ quoted ''explanation'' @ '':'' @ quoted ''...'' @ '','' @ quoted ''paper'' @ '':''
          @ quoted ''...'' @ ''}'']"

text \<open>
  What comes back from the network. \<open>fetch\<close> rejects, or it resolves with a status and a
  body. The body either gives no response text (\<open>response.json()\<close> rejects, or reading
  \<open>data.candidates\<close> throws), or it gives the text that \<open>parseAiResponse\<close> receives,
  which is represented by what \<open>JSON.parse\<close> makes of it once the code fences are
  stripped:
  \<^item> \<open>Unparseable\<close>: \<open>JSON.parse\<close> throws, or \<open>text.replace\<close> does because the text is
    not a string (the empty text, used when the response has none, is such a case);
  \<^item> \<open>NotIterable\<close>: a value that \<open>for ... of\<close> cannot iterate (an object, a number,
    \<open>null\<close>), so that the loop throws before its first round;
  \<^item> \<open>Elements\<close>: an array, element by element.

  An element is \<open>Malformed\<close> when the loop body throws on it: \<open>null\<close>, where \<open>item.hex\<close>
  throws, and a number, an array or an object whose \<open>hex\<close> is not a string, where
  \<open>hex.startsWith\<close> throws. Every other element is an \<open>Item\<close>. Its fields \<open>c\<close>, \<open>m\<close>,
  \<open>y\<close>, \<open>k\<close> hold the number that \<open>Math.round\<close> converts the field of the payload to: the
  number itself for a JSON number (an infinity when the literal overflows), NaN for a field
  that is absent or is not numeric. \<open>explanation\<close> and \<open>paper\<close> are taken at their
  declared type.
\<close>

record ai_item =
  item_hex :: string
  item_c :: jsnum
  item_m :: jsnum
  item_y :: jsnum
  item_k :: jsnum
  item_explanation :: string
  item_paper :: string

datatype element = Malformed | Item ai_item

datatype payload = Unparseable | NotIterable | Elements "element list"

datatype response_body = NoText | ResponseText payload

datatype remote_outcome = FetchRejected | Response nat response_body

definition response_ok :: "nat \<Rightarrow> bool" where
  \<comment> \<open>\<open>response.ok\<close>: a status from 200 to 299\<close>
  "response_ok status \<longleftrightarrow> 200 \<le> status \<and> status \<le> 299"

definition aiResult :: "(real \<Rightarrow> real) \<Rightarrow> ai_item \<Rightarrow> AiPrintResult" where
  \<comment> \<open>the object built in the loop of \<open>parseAiResponse\<close>; the \<open>None\<close> case is never
      reached, as in \<open>getPrintConversions\<close>\<close>
  "aiResult fl item =
     (let normalized = normalizeHex (item_hex item);
          std = (case hexToRgb normalized of
                   None \<Rightarrow>
                     \<lparr>cmyk_c = NaN, cmyk_m = NaN, cmyk_y = NaN, cmyk_k = NaN,
                      description = standardDescription\<rparr>
                 | Some (r, g, b) \<Rightarrow>
                     (case standardCmyk fl r g b of
                        (cStd, mStd, yStd, kFinalStd) \<Rightarrow>
                          \<lparr>cmyk_c = Num cStd, cmyk_m = Num mStd, cmyk_y = Num yStd,
                           cmyk_k = Num kFinalStd, description = standardDescription\<rparr>))
      in \<lparr>input_hex = normalized,
          conversions =
            \<lparr>standard_auto = std,
             smart_print_recipe =
               \<lparr>cmyk_c = clamp (item_c item), cmyk_m = clamp (item_m item),
                cmyk_y = clamp (item_y item), cmyk_k = clamp (item_k item),
                modifications_made = item_explanation item,
                paper_type =
                  (if item_paper item = [] then ''Regular Stock'' else item_paper item)\<rparr>\<rparr>,
          source = SrcAi\<rparr>)"

fun parseItems ::
  "(real \<Rightarrow> real) \<Rightarrow> element list \<Rightarrow> (string \<times> AiPrintResult) list \<Rightarrow>
   (string \<times> AiPrintResult) list \<times> bool" where
  \<comment> \<open>the \<open>for\<close> loop of the \<open>try\<close> block: the results so far, and whether it threw\<close>
  "parseItems fl [] results = (results, False)"
| "parseItems fl (Malformed # items) results = (results, True)"
| "parseItems fl (Item item # items) results =
     parseItems fl items (map_set (normalizeHex (item_hex item)) (aiResult fl item) results)"

definition fillFallback ::
  "(real \<Rightarrow> real) \<Rightarrow> string list \<Rightarrow> (string \<times> AiPrintResult) list \<Rightarrow>
   (string \<times> AiPrintResult) list" where
  \<comment> \<open>the loop of the \<open>catch\<close> block\<close>
  "fillFallback fl requestedHexes results =
     foldl (\<lambda>res hex. if \<not> map_has hex res then map_set hex (heuristicFallback fl hex) res else res)
       results requestedHexes"

definition parseAiResponse ::
  "(real \<Rightarrow> real) \<Rightarrow> payload \<Rightarrow> string list \<Rightarrow> (string \<times> AiPrintResult) list" where
  "parseAiResponse fl text requestedHexes =
     (case text of
        Elements items \<Rightarrow>
          (case parseItems fl items [] of
             (results, threw) \<Rightarrow>
               if threw then fillFallback fl requestedHexes results else results)
      | _ \<Rightarrow> fillFallback fl requestedHexes [])"

text \<open>
  \<open>fetchAiCmykBatch\<close> suspends at \<open>await fetch\<close> and at \<open>await response.json()\<close>, and
  touches neither \<open>results\<close> nor the cache between the two. \<open>fetchStart\<close> is the part
  before: it finishes at once (\<open>Done\<close>, with the returned map and the new state) or issues
  the one request and suspends (\<open>Await\<close>), keeping its local \<open>results\<close> and \<open>uncached\<close>.
  \<open>fetchFinish\<close> is the part after, run on the outcome of the request and on the state of
  that later moment. \<open>fetchAiCmykBatch\<close> runs both with nothing in between, and also
  returns the requests that were sent.
\<close>

record request =
  req_url :: string
  req_text :: string

record pending =
  p_results :: "(string \<times> AiPrintResult) list"
  p_uncached :: "string list"
  p_request :: request

datatype started = Done "(string \<times> AiPrintResult) list" service | Await pending

definition partitionCached ::
  "(string \<times> AiPrintResult) list \<Rightarrow> string list \<Rightarrow>
   (string \<times> AiPrintResult) list \<times> string list" where
  \<comment> \<open>the first loop: \<open>results\<close> and \<open>uncached\<close>\<close>
  "partitionCached c hexCodes =
     foldl (\<lambda>(results, uncached) hex.
              let normalized = normalizeHex hex
              in case map_of c normalized of
                   Some cached \<Rightarrow> (map_set normalized cached results, uncached)
                 | None \<Rightarrow> (results, uncached @ [normalized]))
       ([], []) hexCodes"

definition resolveLocally ::
  "(real \<Rightarrow> real) \<Rightarrow> environment \<Rightarrow> service \<Rightarrow> (string \<times> AiPrintResult) list \<Rightarrow>
   string list \<Rightarrow> (string \<times> AiPrintResult) list \<times> service" where
  \<comment> \<open>the branch taken without a credential\<close>
  "resolveLocally fl env st results uncached =
     (case foldl (\<lambda>(res, c) hex.
                    let fb = heuristicFallback fl hex in (map_set hex fb res, map_set hex fb c))
             (results, cache st) uncached of
        (res, c) \<Rightarrow> (res, persistCache env (st\<lparr>cache := c\<rparr>)))"

definition noCredential :: "string option \<Rightarrow> bool" where
  \<comment> \<open>\<open>!apiKey || apiKey === 'PLACEHOLDER_API_KEY'\<close>\<close>
  "noCredential key =
     (case key of None \<Rightarrow> True | Some k \<Rightarrow> k = [] \<or> k = ''PLACEHOLDER_API_KEY'')"

definition requestFor :: "string option \<Rightarrow> string list \<Rightarrow> request" where
  \<comment> \<open>the URL and the prompt of the POST request; its method, headers and
      \<open>generationConfig\<close> are constants\<close>
  "requestFor key uncached =
     \<lparr>req_url =
        ''https://generativelanguage.googleapis.com/v1beta/models/gemini-2.0-flash:generateContent?key=''
          @ (case key of None \<Rightarrow> ''undefined'' | Some k \<Rightarrow> k),
      req_text = buildPrompt uncached\<rparr>"

definition fetchStart ::
  "(real \<Rightarrow> real) \<Rightarrow> environment \<Rightarrow> service \<Rightarrow> string list \<Rightarrow> started" where
  "fetchStart fl env st hexCodes =
     (case partitionCached (cache st) hexCodes of
        (results, uncached) \<Rightarrow>
          if uncached = [] then Done results st
          else if noCredential (apiKey env) then
            (case resolveLocally fl env st results uncached of (res, st') \<Rightarrow> Done res st')
          else Await \<lparr>p_results = results, p_uncached = uncached,
                       p_request = requestFor (apiKey env) uncached\<rparr>)"

definition fallbackAll ::
  "(real \<Rightarrow> real) \<Rightarrow> (string \<times> AiPrintResult) list \<Rightarrow> string list \<Rightarrow>
   (string \<times> AiPrintResult) list" where
  \<comment> \<open>the loop of the \<open>catch\<close> block of \<open>fetchAiCmykBatch\<close>\<close>
  "fallbackAll fl results uncached =
     foldl (\<lambda>res hex. map_set hex (heuristicFallback fl hex) res) results uncached"

definition mergeParsed ::
  "(string \<times> AiPrintResult) list \<Rightarrow> (string \<times> AiPrintResult) list \<Rightarrow>
   (string \<times> AiPrintResult) list \<Rightarrow>
   (string \<times> AiPrintResult) list \<times> (string \<times> AiPrintResult) list" where
  \<comment> \<open>\<open>for (const [hex, result] of parsed)\<close>: into \<open>results\<close> and into \<open>cache\<close>\<close>
  "mergeParsed results c parsed =
     foldl (\<lambda>(res, c) (hex, result). (map_set hex result res, map_set hex result c))
       (results, c) parsed"

definition fetchFinish ::
  "(real \<Rightarrow> real) \<Rightarrow> environment \<Rightarrow> pending \<Rightarrow> remote_outcome \<Rightarrow> service \<Rightarrow>
   (string \<times> AiPrintResult) list \<times> service" where
  "fetchFinish fl env p outcome st =
     (case outcome of
        FetchRejected \<Rightarrow> (fallbackAll fl (p_results p) (p_uncached p), st)
      | Response status body \<Rightarrow>
          if \<not> response_ok status then (fallbackAll fl (p_results p) (p_uncached p), st)
          else (case body of
                  NoText \<Rightarrow> (fallbackAll fl (p_results p) (p_uncached p), st)
                | ResponseText text \<Rightarrow>
                    (case mergeParsed (p_results p) (cache st)
                            (parseAiResponse fl text (p_uncached p)) of
                       (res, c) \<Rightarrow> (res, persistCache env (st\<lparr>cache := c\<rparr>)))))"

definition fetchAiCmykBatch ::
  "(real \<Rightarrow> real) \<Rightarrow> environment \<Rightarrow> remote_outcome \<Rightarrow> service \<Rightarrow> string list \<Rightarrow>
   (string \<times> AiPrintResult) list \<times> service \<times> request list" where
  "fetchAiCmykBatch fl env outcome st hexCodes =
     (case fetchStart fl env st hexCodes of
        Done results st' \<Rightarrow> (results, st', [])
      | Await p \<Rightarrow>
          (case fetchFinish fl env p outcome st of
             (results, st') \<Rightarrow> (results, st', [p_request p])))"

definition getCachedResult :: "service \<Rightarrow> string \<Rightarrow> AiPrintResult option" where
  "getCachedResult st hex = map_of (cache st) (normalizeHex hex)"

definition transportFailed :: "remote_outcome \<Rightarrow> bool" where
  \<comment> \<open>\<open>fetch\<close> throws, or the status is not ok\<close>
  "transportFailed outcome =
     (case outcome of FetchRejected \<Rightarrow> True | Response status body \<Rightarrow> \<not> response_ok status)"

definition remoteFailed :: "remote_outcome \<Rightarrow> bool" where
  \<comment> \<open>a network error, a status that is not ok, or a payload that yields no JSON array\<close>
  "remoteFailed outcome =
     (case outcome of
        FetchRejected \<Rightarrow> True
      | Response status body \<Rightarrow>
          \<not> response_ok status \<or>
          (case body of
             NoText \<Rightarrow> True
           | ResponseText Unparseable \<Rightarrow> True
           | ResponseText NotIterable \<Rightarrow> True
           | ResponseText (Elements items) \<Rightarrow> False))"

definition uncachedOf :: "service \<Rightarrow> string list \<Rightarrow> string list" where
  \<comment> \<open>the array \<open>uncached\<close> after the first loop\<close>
  "uncachedOf st hexCodes = snd (partitionCached (cache st) hexCodes)"

definition cachedOf :: "service \<Rightarrow> string list \<Rightarrow> (string \<times> AiPrintResult) list" where
  \<comment> \<open>the map \<open>results\<close> after the first loop\<close>
  "cachedOf st hexCodes = fst (partitionCached (cache st) hexCodes)"

section \<open>The result accessor (src/hooks/useAiCmyk.ts)\<close>

text \<open>
  The hook is modelled as a state machine over the events that React and the promise
  deliver, one at a time (JavaScript runs them to completion, never in parallel).
  React runs the effect after the first render and after every render whose \<open>hexKey\<close>
  differs from the previous one; before running it again, and when the component
  unmounts, it calls the cleanup that the previous run returned. Every run of the effect
  that starts a fetch has a \<open>cancelled\<close> variable of its own: \<open>cancelled\<close> lists them in the
  order the runs started, and a run is named by its position. \<open>cleanup\<close> is the run whose
  cleanup React holds. \<open>Resolve i results\<close> and \<open>Reject i\<close> are the two ways the promise of
  run \<open>i\<close> can settle. \<open>Remount\<close> is what \<open>React.StrictMode\<close> (src/index.tsx) does in
  development: it calls the cleanup and runs the effect once more with the same colours.
\<close>

record ColorRecord =
  rec_id :: string
  rec_hex :: string

record hook =
  aiResults :: "(string \<times> AiPrintResult) list"
  isLoading :: bool
  hexKey :: "string option"
  props :: "ColorRecord list"
  cancelled :: "bool list"
  cleanup :: "nat option"
  mounted :: bool

datatype event =
    Render "ColorRecord list"
  | Resolve nat "(string \<times> AiPrintResult) list"
  | Reject nat
  | Remount
  | Unmount

definition initial :: hook where
  "initial = \<lparr>aiResults = [], isLoading = False, hexKey = None, props = [], cancelled = [],
              cleanup = None, mounted = True\<rparr>"

definition runCleanup :: "hook \<Rightarrow> hook" where
  \<comment> \<open>\<open>() => { cancelled = true; }\<close> of the run that React holds\<close>
  "runCleanup h =
     (case cleanup h of
        None \<Rightarrow> h
      | Some i \<Rightarrow> h\<lparr>cancelled := (cancelled h)[i := True], cleanup := None\<rparr>)"

definition runEffect :: "ColorRecord list \<Rightarrow> hook \<Rightarrow> hook" where
  \<comment> \<open>the effect body up to the call of \<open>fetchAiCmykBatch\<close>; with no colours it returns
      at once, without a cleanup\<close>
  "runEffect colors h =
     (if colors = [] then h
      else h\<lparr>isLoading := True, cancelled := cancelled h @ [False],
              cleanup := Some (length (cancelled h))\<rparr>)"

definition mergeResults ::
  "(string \<times> AiPrintResult) list \<Rightarrow> (string \<times> AiPrintResult) list \<Rightarrow>
   (string \<times> AiPrintResult) list" where
  \<comment> \<open>the updater passed to \<open>setAiResults\<close>\<close>
  "mergeResults prev results = foldl (\<lambda>next (k, v). map_set k v next) prev results"

fun step :: "event \<Rightarrow> hook \<Rightarrow> hook" where
  "step (Render colors) h =
     (if \<not> mounted h then h
      else if hexKey h = Some (joinWith '','' (map rec_hex colors)) then h\<lparr>props := colors\<rparr>
      else runEffect colors
             (runCleanup
                (h\<lparr>hexKey := Some (joinWith '','' (map rec_hex colors)), props := colors\<rparr>)))"
| "step (Resolve i results) h =
     (if i < length (cancelled h) \<and> \<not> cancelled h ! i
      then h\<lparr>aiResults := mergeResults (aiResults h) results, isLoading := False\<rparr>
      else h)"
| "step (Reject i) h =
     (if i < length (cancelled h) \<and> \<not> cancelled h ! i then h\<lparr>isLoading := False\<rparr> else h)"
| "step Remount h = (if \<not> mounted h then h else runEffect (props h) (runCleanup h))"
| "step Unmount h = (runCleanup h)\<lparr>mounted := False\<rparr>"

definition run :: "event list \<Rightarrow> hook" where
  \<comment> \<open>the state after a sequence of events, from the first mount\<close>
  "run evs = foldl (\<lambda>h ev. step ev h) initial evs"

definition live_is_latest :: "hook \<Rightarrow> bool" where
  \<comment> \<open>the invariant: a run that is not cancelled is the one React holds the cleanup of,
      and that one is the run started last\<close>
  "live_is_latest h \<longleftrightarrow>
     (\<forall>i < length (cancelled h). \<not> cancelled h ! i \<longrightarrow> cleanup h = Some i) \<and>
     (\<forall>i. cleanup h = Some i \<longrightarrow> Suc i = length (cancelled h)) \<and>
     (\<not> mounted h \<longrightarrow> cleanup h = None)"

section \<open>Properties of the normalizer\<close>

lemma hexDigits_hash [simp]: "hexDigits (CHR ''#'' # s) = s"
  by (simp add: hexDigits_def startsWithHash_def)

lemma isValidHex_hash:
  "isValidHex (CHR ''#'' # s) \<longleftrightarrow> (length s = 3 \<or> length s = 6) \<and> list_all isHexDigit s"
  by (simp add: isValidHex_def)

lemma not_hex_hash [simp]: "\<not> isHexDigit CHR ''#''"
  by (simp add: isHexDigit_def)

lemma cleaned_valid:
  "isValidHex (if startsWithHash hex then hex else CHR ''#'' # hex) \<longleftrightarrow> isValidHex hex"
  by (cases hex) (auto simp: isValidHex_def hexDigits_def startsWithHash_def)

lemma upper_hex_digit: "isHexDigit ch \<Longrightarrow> isUpperHexDigit (toUpperCaseChar ch)"
  unfolding isHexDigit_def
  apply (simp only: list.set insert_iff empty_iff)
  apply (elim disjE)
  apply (simp_all add: toUpperCaseChar_def isUpperHexDigit_def)
  done

lemma upper_fixes_upper: "isUpperHexDigit ch \<Longrightarrow> toUpperCaseChar ch = ch"
  unfolding isUpperHexDigit_def
  apply (simp only: list.set insert_iff empty_iff)
  apply (elim disjE)
  apply (simp_all add: toUpperCaseChar_def)
  done

lemma upper_is_hex: "isUpperHexDigit ch \<Longrightarrow> isHexDigit ch"
  by (auto simp: isUpperHexDigit_def isHexDigit_def)

lemma upper_hash [simp]: "toUpperCaseChar CHR ''#'' = CHR ''#''"
  by (simp add: toUpperCaseChar_def)

lemma normalizeHex_valid:
  "isValidHex hex \<Longrightarrow> normalizeHex hex = CHR ''#'' # toUpperCase (hexDigits hex)"
  by (cases hex)
    (auto simp: normalizeHex_def Let_def cleaned_valid hexDigits_def startsWithHash_def
      toUpperCase_def isValidHex_def)

lemma normalizeHex_invalid: "\<not> isValidHex hex \<Longrightarrow> normalizeHex hex = ''#FFFFFF''"
  using cleaned_valid [of hex] by (simp add: normalizeHex_def Let_def)

lemma white_valid: "isValidHex ''#FFFFFF''"
  by (simp add: isValidHex_def isHexDigit_def)

lemma normalizeHex_white: "normalizeHex ''#FFFFFF'' = ''#FFFFFF''"
  by (simp add: normalizeHex_valid [OF white_valid] toUpperCase_def toUpperCaseChar_def)

lemma normalized_digits:
  "isValidHex hex \<Longrightarrow> list_all isUpperHexDigit (toUpperCase (hexDigits hex))"
  by (simp add: isValidHex_def toUpperCase_def list_all_iff upper_hex_digit)

lemma normalizeHex_is_valid: "isValidHex (normalizeHex hex)"
proof (cases "isValidHex hex")
  case True
  have "list_all isHexDigit (toUpperCase (hexDigits hex))"
    using normalized_digits [OF True] by (simp add: list_all_iff upper_is_hex)
  moreover have "length (toUpperCase (hexDigits hex)) = length (hexDigits hex)"
    by (simp add: toUpperCase_def)
  ultimately show ?thesis
    using True by (simp add: normalizeHex_valid isValidHex_hash) (simp add: isValidHex_def)
next
  case False
  then show ?thesis by (simp add: normalizeHex_invalid white_valid)
qed

lemma normalizeHex_idem: "normalizeHex (normalizeHex hex) = normalizeHex hex"
proof (cases "isValidHex hex")
  case True
  let ?d = "toUpperCase (hexDigits hex)"
  have "toUpperCase ?d = ?d"
    using normalized_digits [OF True]
    by (simp add: toUpperCase_def list_all_iff upper_fixes_upper map_idI)
  then show ?thesis
    using normalizeHex_is_valid [of hex] True
    by (simp add: normalizeHex_valid)
next
  case False
  then show ?thesis by (simp add: normalizeHex_invalid normalizeHex_white)
qed

text \<open>
  Claim C4, as the code has it. \<open>normalizeHex\<close> is idempotent on every string and sends
  every invalid string to \<open>#FFFFFF\<close>. A valid string comes back as \<open>#\<close> followed by its
  own digits in upper case: seven characters \<open>#RRGGBB\<close> for six digits, and four
  characters \<open>#RGB\<close> for three digits, which are not expanded.
\<close>

theorem normalizeHex_contract:
  "normalizeHex (normalizeHex x) = normalizeHex x \<and>
   (isValidHex x \<longrightarrow>
      normalizeHex x = CHR ''#'' # toUpperCase (hexDigits x) \<and>
      list_all isUpperHexDigit (toUpperCase (hexDigits x)) \<and>
      length (normalizeHex x) = (if length (hexDigits x) = 6 then 7 else 4)) \<and>
   (\<not> isValidHex x \<longrightarrow> normalizeHex x = ''#FFFFFF'')"
proof (intro conjI impI)
  show "normalizeHex (normalizeHex x) = normalizeHex x" by (rule normalizeHex_idem)
next
  assume v: "isValidHex x"
  show "normalizeHex x = CHR ''#'' # toUpperCase (hexDigits x)"
    by (rule normalizeHex_valid [OF v])
  show "list_all isUpperHexDigit (toUpperCase (hexDigits x))"
    by (rule normalized_digits [OF v])
  show "length (normalizeHex x) = (if length (hexDigits x) = 6 then 7 else 4)"
    using v by (auto simp: normalizeHex_valid toUpperCase_def isValidHex_def)
next
  assume "\<not> isValidHex x"
  then show "normalizeHex x = ''#FFFFFF''" by (rule normalizeHex_invalid)
qed

theorem normalizeHex_contract_witness:
  "isValidHex ''1a2b3c'' \<and> normalizeHex ''1a2b3c'' = ''#1A2B3C'' \<and>
   length (normalizeHex ''1a2b3c'') = 7 \<and>
   \<not> isValidHex ''12345'' \<and> normalizeHex ''12345'' = ''#FFFFFF''"
proof -
  have v: "isValidHex ''1a2b3c''"
    by (simp add: isValidHex_def hexDigits_def startsWithHash_def isHexDigit_def)
  have n: "\<not> isValidHex ''12345''"
    by (simp add: isValidHex_def hexDigits_def startsWithHash_def)
  have d: "toUpperCase (hexDigits ''1a2b3c'') = ''1A2B3C''"
    by (simp add: hexDigits_def startsWithHash_def toUpperCase_def toUpperCaseChar_def)
  show ?thesis
    using normalizeHex_contract [of "''1a2b3c''"] normalizeHex_contract [of "''12345''"] v n d
    by simp
qed

theorem normalizeHex_three_digit_counterexample:
  "isValidHex ''abc'' \<and> normalizeHex ''abc'' = ''#ABC'' \<and> length (normalizeHex ''abc'') \<noteq> 7"
  by (simp add: normalizeHex_def isValidHex_def hexDigits_def startsWithHash_def isHexDigit_def
      toUpperCase_def toUpperCaseChar_def)


section \<open>Decoding and the standard conversion\<close>

lemma hexVal_some: "isHexDigit ch \<Longrightarrow> \<exists>d. hexVal ch = Some d \<and> d \<le> 15"
  unfolding isHexDigit_def
  apply (simp only: list.set insert_iff empty_iff)
  apply (elim disjE)
  apply (simp_all add: hexVal_def)
  done

lemma parseInt16_pair:
  assumes "isHexDigit a" "isHexDigit b"
  shows "\<exists>v. parseInt16 [a, b] = Some v \<and> v \<le> 255"
proof -
  obtain d where d: "hexVal a = Some d" "d \<le> 15" using hexVal_some [OF assms(1)] by blast
  obtain e where e: "hexVal b = Some e" "e \<le> 15" using hexVal_some [OF assms(2)] by blast
  have "parseInt16 [a, b] = Some (16 * d + e)" by (simp add: parseInt16_def d e)
  moreover have "16 * d + e \<le> 255" using d e by simp
  ultimately show ?thesis by blast
qed

lemma hexToRgb_three:
  assumes "isHexDigit a" "isHexDigit b" "isHexDigit c"
  shows "\<exists>r g bl. hexToRgb (CHR ''#'' # [a, b, c]) = Some (r, g, bl) \<and> r \<le> 255 \<and> g \<le> 255 \<and> bl \<le> 255"
proof -
  obtain r where r: "parseInt16 [a, a] = Some r" "r \<le> 255" using parseInt16_pair assms by blast
  obtain g where g: "parseInt16 [b, b] = Some g" "g \<le> 255" using parseInt16_pair assms by blast
  obtain bl where bl: "parseInt16 [c, c] = Some bl" "bl \<le> 255" using parseInt16_pair assms by blast
  have "hexToRgb (CHR ''#'' # [a, b, c]) = Some (r, g, bl)"
    by (simp add: hexToRgb_def r g bl)
  then show ?thesis using r g bl by blast
qed

lemma hexToRgb_six:
  assumes "isHexDigit a" "isHexDigit b" "isHexDigit c" "isHexDigit d" "isHexDigit e" "isHexDigit f"
  shows "\<exists>r g bl. hexToRgb (CHR ''#'' # [a, b, c, d, e, f]) = Some (r, g, bl) \<and> r \<le> 255 \<and> g \<le> 255 \<and> bl \<le> 255"
proof -
  obtain r where r: "parseInt16 [a, b] = Some r" "r \<le> 255" using parseInt16_pair assms by blast
  obtain g where g: "parseInt16 [c, d] = Some g" "g \<le> 255" using parseInt16_pair assms by blast
  obtain bl where bl: "parseInt16 [e, f] = Some bl" "bl \<le> 255" using parseInt16_pair assms by blast
  have "hexToRgb (CHR ''#'' # [a, b, c, d, e, f]) = Some (r, g, bl)"
    by (simp add: hexToRgb_def r g bl)
  then show ?thesis using r g bl by blast
qed

lemma length3: "length xs = 3 \<Longrightarrow> \<exists>a b c. xs = [a, b, c]"
  by (auto simp: numeral_3_eq_3 length_Suc_conv)

lemma length6: "length xs = 6 \<Longrightarrow> \<exists>a b c d e f. xs = [a, b, c, d, e, f]"
  by (auto simp: eval_nat_numeral length_Suc_conv)

lemma hexToRgb_valid:
  assumes "list_all isHexDigit ds" "length ds = 3 \<or> length ds = 6"
  shows "\<exists>r g b. hexToRgb (CHR ''#'' # ds) = Some (r, g, b) \<and> r \<le> 255 \<and> g \<le> 255 \<and> b \<le> 255"
  using assms(2)
proof
  assume "length ds = 3"
  then obtain a b c where "ds = [a, b, c]" using length3 by blast
  then show ?thesis using assms(1) hexToRgb_three [of a b c] by simp
next
  assume "length ds = 6"
  then obtain a b c d e f where "ds = [a, b, c, d, e, f]" using length6 by blast
  then show ?thesis using assms(1) hexToRgb_six [of a b c d e f] by simp
qed

lemma hexToRgb_normalizeHex:
  "\<exists>r g b. hexToRgb (normalizeHex x) = Some (r, g, b) \<and> r \<le> 255 \<and> g \<le> 255 \<and> b \<le> 255"
proof -
  have v: "isValidHex (normalizeHex x)" by (rule normalizeHex_is_valid)
  have "normalizeHex x = CHR ''#'' # toUpperCase (hexDigits (normalizeHex x))"
    using normalizeHex_valid [OF v] by (simp add: normalizeHex_idem)
  moreover have "list_all isHexDigit (toUpperCase (hexDigits (normalizeHex x)))"
    using normalized_digits [OF v] by (simp add: list_all_iff upper_is_hex)
  moreover have "length (toUpperCase (hexDigits (normalizeHex x))) = 3 \<or>
                 length (toUpperCase (hexDigits (normalizeHex x))) = 6"
    using v by (simp add: isValidHex_def toUpperCase_def)
  ultimately show ?thesis using hexToRgb_valid by metis
qed

lemma roundR_range: "0 \<le> x \<Longrightarrow> x \<le> 100 \<Longrightarrow> isInk (Num (roundR x))"
proof -
  assume a: "0 \<le> x" "x \<le> 100"
  have "0 \<le> \<lfloor>x + 1 / 2\<rfloor>" using a by simp
  moreover have "\<lfloor>x + 1 / 2\<rfloor> \<le> 100" using a by (simp add: floor_le_iff)
  ultimately show ?thesis by (simp add: isInk_def roundR_def)
qed

lemma fl_unit: "fl_ok fl \<Longrightarrow> 0 \<le> x \<Longrightarrow> x \<le> 1 \<Longrightarrow> 0 \<le> fl x \<and> fl x \<le> 1"
  unfolding fl_ok_def by metis

lemma fl_nonneg: "fl_ok fl \<Longrightarrow> 0 \<le> x \<Longrightarrow> 0 \<le> fl x"
  unfolding fl_ok_def by metis

lemma fl_mono: "fl_ok fl \<Longrightarrow> x \<le> y \<Longrightarrow> fl x \<le> fl y"
  unfolding fl_ok_def by metis

lemma component_range:
  assumes ok: "fl_ok fl" and p: "p \<le> mx" and mx: "0 \<le> mx" "mx \<le> 1" and p0: "0 \<le> p"
    and k: "kStd = fl (1 - mx)" and k1: "kStd \<noteq> 1"
  shows "isInk (Num (roundR (fl (fl (fl (fl (1 - p) - kStd) / fl (1 - kStd)) * 100))))"
proof -
  have f0: "fl 0 = 0" and f1: "fl 1 = 1" and f100: "fl 100 = 100"
    using ok by (simp_all add: fl_ok_def)
  have kr: "0 \<le> kStd" "kStd \<le> 1" using fl_unit [OF ok, of "1 - mx"] mx k by simp_all
  have q1: "fl (1 - p) \<le> 1" using fl_mono [OF ok, of "1 - p" 1] p0 f1 by simp
  have qk: "kStd \<le> fl (1 - p)" using fl_mono [OF ok, of "1 - mx" "1 - p"] p k by simp
  define n where "n = fl (fl (1 - p) - kStd)"
  define d where "d = fl (1 - kStd)"
  have n0: "0 \<le> n" using fl_nonneg [OF ok, of "fl (1 - p) - kStd"] qk by (simp add: n_def)
  have nd: "n \<le> d" using fl_mono [OF ok, of "fl (1 - p) - kStd" "1 - kStd"] q1 by (simp add: n_def d_def)
  have "d \<noteq> 0"
  proof
    assume "d = 0"
    then have "fl (1 - fl (1 - mx)) = 0" by (simp add: d_def k)
    then have "fl (1 - mx) = 1" using ok unfolding fl_ok_def by blast
    then show False using k k1 by simp
  qed
  moreover have "0 \<le> d" using fl_nonneg [OF ok, of "1 - kStd"] kr by (simp add: d_def)
  ultimately have dpos: "0 < d" by simp
  have q: "0 \<le> n / d" "n / d \<le> 1" using n0 nd dpos by simp_all
  have fq: "0 \<le> fl (n / d)" "fl (n / d) \<le> 1" using fl_unit [OF ok q] by simp_all
  have "0 \<le> fl (n / d) * 100" "fl (n / d) * 100 \<le> 100" using fq by simp_all
  then have "0 \<le> fl (fl (n / d) * 100)" "fl (fl (n / d) * 100) \<le> 100"
    using fl_mono [OF ok, of 0 "fl (n / d) * 100"] fl_mono [OF ok, of "fl (n / d) * 100" 100] f0 f100
    by simp_all
  then show ?thesis unfolding n_def d_def by (rule roundR_range)
qed

lemma isInk_zero: "isInk (Num 0)"
  by (simp add: isInk_def)

lemma standardCmyk_range:
  assumes ok: "fl_ok fl" and r: "r \<le> 255" "g \<le> 255" "b \<le> 255"
    and s: "standardCmyk fl r g b = (cS, mS, yS, kS)"
  shows "isInk (Num cS) \<and> isInk (Num mS) \<and> isInk (Num yS) \<and> isInk (Num kS)"
proof -
  define rP where "rP = fl (real r / 255)"
  define gP where "gP = fl (real g / 255)"
  define bP where "bP = fl (real b / 255)"
  define mx where "mx = max rP (max gP bP)"
  define kStd where "kStd = fl (1 - mx)"
  have rP: "0 \<le> rP" "rP \<le> 1" using fl_unit [OF ok, of "real r / 255"] r by (simp_all add: rP_def)
  have gP: "0 \<le> gP" "gP \<le> 1" using fl_unit [OF ok, of "real g / 255"] r by (simp_all add: gP_def)
  have bP: "0 \<le> bP" "bP \<le> 1" using fl_unit [OF ok, of "real b / 255"] r by (simp_all add: bP_def)
  have mx: "0 \<le> mx" "mx \<le> 1" "rP \<le> mx" "gP \<le> mx" "bP \<le> mx"
    using rP gP bP by (simp_all add: mx_def)
  have kr: "0 \<le> kStd" "kStd \<le> 1" using fl_unit [OF ok, of "1 - mx"] mx by (simp_all add: kStd_def)
  have f0: "fl 0 = 0" and f100: "fl 100 = 100" using ok by (simp_all add: fl_ok_def)
  have "0 \<le> kStd * 100" "kStd * 100 \<le> 100" using kr by simp_all
  then have "0 \<le> fl (kStd * 100)" "fl (kStd * 100) \<le> 100"
    using fl_mono [OF ok, of 0 "kStd * 100"] fl_mono [OF ok, of "kStd * 100" 100] f0 f100
    by simp_all
  then have kk: "isInk (Num (roundR (fl (kStd * 100))))" by (rule roundR_range)
  have cS: "cS = (if kStd = 1 then 0 else roundR (fl (fl (fl (fl (1 - rP) - kStd) / fl (1 - kStd)) * 100)))"
    and mS: "mS = (if kStd = 1 then 0 else roundR (fl (fl (fl (fl (1 - gP) - kStd) / fl (1 - kStd)) * 100)))"
    and yS: "yS = (if kStd = 1 then 0 else roundR (fl (fl (fl (fl (1 - bP) - kStd) / fl (1 - kStd)) * 100)))"
    and kS: "kS = roundR (fl (kStd * 100))"
    using s [symmetric] by (simp_all add: standardCmyk_def Let_def rP_def gP_def bP_def mx_def kStd_def)
  have "isInk (Num cS)"
    using component_range [OF ok mx(3) mx(1) mx(2) rP(1) kStd_def] isInk_zero by (simp add: cS)
  moreover have "isInk (Num mS)"
    using component_range [OF ok mx(4) mx(1) mx(2) gP(1) kStd_def] isInk_zero by (simp add: mS)
  moreover have "isInk (Num yS)"
    using component_range [OF ok mx(5) mx(1) mx(2) bP(1) kStd_def] isInk_zero by (simp add: yS)
  ultimately show ?thesis using kk kS by simp
qed

lemma normalizeHex_black: "normalizeHex ''#000000'' = ''#000000''"
  by (simp add: normalizeHex_def isValidHex_def startsWithHash_def isHexDigit_def
      toUpperCase_def toUpperCaseChar_def)

lemma hexToRgb_white: "hexToRgb ''#FFFFFF'' = Some (255, 255, 255)"
  by (simp add: hexToRgb_def parseInt16_def hexVal_def)

lemma hexToRgb_black: "hexToRgb ''#000000'' = Some (0, 0, 0)"
  by (simp add: hexToRgb_def parseInt16_def hexVal_def)

lemma standardCmyk_white:
  "fl_ok fl \<Longrightarrow> standardCmyk fl 255 255 255 = (0, 0, 0, 0)"
  by (simp add: fl_ok_def standardCmyk_def Let_def roundR_def)

lemma standardCmyk_black:
  "fl_ok fl \<Longrightarrow> standardCmyk fl 0 0 0 = (0, 0, 0, 100)"
  by (simp add: fl_ok_def standardCmyk_def Let_def roundR_def)

lemma standardOf_range:
  assumes ok: "fl_ok fl"
  shows "isInk (cmyk_c (standardOf (getPrintConversions fl hex))) \<and>
         isInk (cmyk_m (standardOf (getPrintConversions fl hex))) \<and>
         isInk (cmyk_y (standardOf (getPrintConversions fl hex))) \<and>
         isInk (cmyk_k (standardOf (getPrintConversions fl hex)))"
proof -
  obtain r g b where rgb: "hexToRgb (normalizeHex hex) = Some (r, g, b)"
    and le: "r \<le> 255" "g \<le> 255" "b \<le> 255"
    using hexToRgb_normalizeHex by blast
  obtain cS mS yS kS where s: "standardCmyk fl r g b = (cS, mS, yS, kS)"
    by (metis prod_cases4)
  have "standardOf (getPrintConversions fl hex) =
        \<lparr>cmyk_c = Num cS, cmyk_m = Num mS, cmyk_y = Num yS, cmyk_k = Num kS,
         description = standardDescription\<rparr>"
    by (simp add: getPrintConversions_def standardOf_def Let_def rgb s)
  then show ?thesis using standardCmyk_range [OF ok le s] by simp
qed

lemma white_conversion:
  "fl_ok fl \<Longrightarrow> cmyk4 (standardOf (getPrintConversions fl ''#FFFFFF'')) = (Num 0, Num 0, Num 0, Num 0)"
  by (simp add: getPrintConversions_def standardOf_def Let_def normalizeHex_white hexToRgb_white
      standardCmyk_white cmyk4_def)

lemma black_conversion:
  "fl_ok fl \<Longrightarrow>
   cmyk4 (standardOf (getPrintConversions fl ''#000000'')) = (Num 0, Num 0, Num 0, Num 100) \<and>
   cmyk4 (smartOf (getPrintConversions fl ''#000000'')) = (Num 60, Num 40, Num 40, Num 100)"
  by (simp add: getPrintConversions_def standardOf_def smartOf_def Let_def normalizeHex_black
      hexToRgb_black standardCmyk_black cmyk4_def selectRule_def smartRecipe_def)

text \<open>
  Claim C6. For every input string (valid or not) the four values of the standard
  conversion are integers from 0 to 100, whatever the rounding of the arithmetic.
  White converts to 0, 0, 0, 0. Black converts to 0, 0, 0, 100 and its smart recipe is
  the rich black 60, 40, 40, 100.
\<close>

theorem deterministic_cmyk:
  assumes "fl_ok fl"
  shows "isInk (cmyk_c (standardOf (getPrintConversions fl hex))) \<and>
         isInk (cmyk_m (standardOf (getPrintConversions fl hex))) \<and>
         isInk (cmyk_y (standardOf (getPrintConversions fl hex))) \<and>
         isInk (cmyk_k (standardOf (getPrintConversions fl hex))) \<and>
         cmyk4 (standardOf (getPrintConversions fl ''#FFFFFF'')) = (Num 0, Num 0, Num 0, Num 0) \<and>
         cmyk4 (standardOf (getPrintConversions fl ''#000000'')) = (Num 0, Num 0, Num 0, Num 100) \<and>
         cmyk4 (smartOf (getPrintConversions fl ''#000000'')) = (Num 60, Num 40, Num 40, Num 100)"
  using standardOf_range [OF assms, of hex] white_conversion [OF assms] black_conversion [OF assms]
  by simp

lemma fl_ok_exact: "fl_ok exact"
  by (simp add: fl_ok_def exact_def)

lemma hexToRgb_sample: "hexToRgb ''#6366F1'' = Some (99, 102, 241)"
  by (simp add: hexToRgb_def parseInt16_def hexVal_def)

lemma normalizeHex_sample: "normalizeHex ''6366f1'' = ''#6366F1''"
  by (simp add: normalizeHex_def isValidHex_def hexDigits_def startsWithHash_def isHexDigit_def
      toUpperCase_def toUpperCaseChar_def)

lemma standardCmyk_sample: "standardCmyk exact 99 102 241 = (59, 58, 0, 5)"
  by (simp add: standardCmyk_def Let_def roundR_def exact_def)

theorem deterministic_cmyk_witness:
  "fl_ok exact \<and>
   cmyk4 (standardOf (getPrintConversions exact ''6366f1'')) = (Num 59, Num 58, Num 0, Num 5) \<and>
   isInk (cmyk_c (standardOf (getPrintConversions exact ''6366f1''))) \<and>
   cmyk4 (standardOf (getPrintConversions exact ''#FFFFFF'')) = (Num 0, Num 0, Num 0, Num 0) \<and>
   cmyk4 (smartOf (getPrintConversions exact ''#000000'')) = (Num 60, Num 40, Num 40, Num 100)"
proof -
  have "cmyk4 (standardOf (getPrintConversions exact ''6366f1'')) = (Num 59, Num 58, Num 0, Num 5)"
    by (simp add: getPrintConversions_def standardOf_def Let_def normalizeHex_sample
        hexToRgb_sample standardCmyk_sample cmyk4_def)
  then show ?thesis
    using deterministic_cmyk [OF fl_ok_exact, of "''6366f1''"] fl_ok_exact by simp
qed

section \<open>Rule selection\<close>








section \<open>Maps, the two loops and the cache\<close>

lemma map_of_map_set: "map_of (map_set k v m) = (map_of m)(k \<mapsto> v)"
  by (induction m) (auto simp: fun_eq_iff)

lemma keys_map_set: "fst ` set (map_set k v m) = insert k (fst ` set m)"
  by (simp add: dom_map_of_conv_image_fst [symmetric] map_of_map_set)

lemma distinct_map_set: "distinct (map fst m) \<Longrightarrow> distinct (map fst (map_set k v m))"
proof (induction m)
  case Nil
  then show ?case by simp
next
  case (Cons a m)
  obtain k' v' where a: "a = (k', v')" by (cases a)
  show ?case
  proof (cases "k' = k")
    case True
    then show ?thesis using Cons.prems a by simp
  next
    case False
    have "k' \<notin> fst ` set (map_set k v m)"
      using Cons.prems a False by (simp add: keys_map_set)
    then show ?thesis using Cons a False by simp
  qed
qed

lemma map_of_fallbackAll:
  "map_of (fallbackAll fl res unc) h =
     (if h \<in> set unc then Some (heuristicFallback fl h) else map_of res h)"
  unfolding fallbackAll_def
  by (induction unc arbitrary: res) (auto simp: map_of_map_set)

lemma map_of_fillFallback:
  "map_of (fillFallback fl req res) h =
     (case map_of res h of
        Some v \<Rightarrow> Some v
      | None \<Rightarrow> if h \<in> set req then Some (heuristicFallback fl h) else None)"
  unfolding fillFallback_def
  by (induction req arbitrary: res) (auto simp: map_of_map_set map_has_def split: option.splits)

lemma mergeParsed_fst:
  "map_of (fst (mergeParsed res c parsed)) h =
     (case map_of (rev parsed) h of Some v \<Rightarrow> Some v | None \<Rightarrow> map_of res h)"
  unfolding mergeParsed_def
  by (induction parsed arbitrary: res c) (auto simp: map_of_map_set split: option.splits)

lemma mergeParsed_snd:
  "map_of (snd (mergeParsed res c parsed)) h =
     (case map_of (rev parsed) h of Some v \<Rightarrow> Some v | None \<Rightarrow> map_of c h)"
  unfolding mergeParsed_def
  by (induction parsed arbitrary: res c) (auto simp: map_of_map_set split: option.splits)

lemma map_of_rev_distinct: "distinct (map fst xs) \<Longrightarrow> map_of (rev xs) = map_of xs"
  by (subst map_of_inject_set) (simp_all add: rev_map [symmetric])

lemma mergeParsed_results:
  "distinct (map fst parsed) \<Longrightarrow>
   map_of (fst (mergeParsed res c parsed)) h =
     (case map_of parsed h of Some v \<Rightarrow> Some v | None \<Rightarrow> map_of res h)"
  by (simp add: mergeParsed_fst map_of_rev_distinct)

lemma mergeParsed_cache:
  "distinct (map fst parsed) \<Longrightarrow>
   map_of (snd (mergeParsed res c parsed)) h =
     (case map_of parsed h of Some v \<Rightarrow> Some v | None \<Rightarrow> map_of c h)"
  by (simp add: mergeParsed_snd map_of_rev_distinct)

lemma distinct_fillFallback:
  "distinct (map fst res) \<Longrightarrow> distinct (map fst (fillFallback fl req res))"
  unfolding fillFallback_def
  by (induction req arbitrary: res) (simp_all add: distinct_map_set)

lemma distinct_parseItems:
  "distinct (map fst res) \<Longrightarrow> distinct (map fst (fst (parseItems fl items res)))"
  by (induction fl items res rule: parseItems.induct) (simp_all add: distinct_map_set)

lemma distinct_parseAiResponse: "distinct (map fst (parseAiResponse fl pl req))"
proof (cases pl)
  case (Elements items)
  obtain results threw where p: "parseItems fl items [] = (results, threw)"
    by (cases "parseItems fl items []")
  have "distinct (map fst results)" using distinct_parseItems [of "[]" fl items] p by simp
  then show ?thesis by (simp add: parseAiResponse_def Elements p distinct_fillFallback)
qed (simp_all add: parseAiResponse_def distinct_fillFallback)

lemma partition_step_uncached:
  "snd (foldl (\<lambda>(results, uncached) hex.
              let normalized = normalizeHex hex
              in case map_of c normalized of
                   Some cached \<Rightarrow> (map_set normalized cached results, uncached)
                 | None \<Rightarrow> (results, uncached @ [normalized])) (res, unc) hexCodes) =
   unc @ filter (\<lambda>n. map_of c n = None) (map normalizeHex hexCodes)"
  by (induction hexCodes arbitrary: res unc) (auto simp: Let_def split: option.splits)

lemma partition_step_results:
  "map_of (fst (foldl (\<lambda>(results, uncached) hex.
              let normalized = normalizeHex hex
              in case map_of c normalized of
                   Some cached \<Rightarrow> (map_set normalized cached results, uncached)
                 | None \<Rightarrow> (results, uncached @ [normalized])) (res, unc) hexCodes)) n =
   (if n \<in> normalizeHex ` set hexCodes \<and> map_of c n \<noteq> None then map_of c n else map_of res n)"
  by (induction hexCodes arbitrary: res unc)
    (auto simp: Let_def map_of_map_set split: option.splits)

lemma partition_step_distinct:
  "distinct (map fst res) \<Longrightarrow>
   distinct (map fst (fst (foldl (\<lambda>(results, uncached) hex.
              let normalized = normalizeHex hex
              in case map_of c normalized of
                   Some cached \<Rightarrow> (map_set normalized cached results, uncached)
                 | None \<Rightarrow> (results, uncached @ [normalized])) (res, unc) hexCodes)))"
  by (induction hexCodes arbitrary: res unc)
    (auto simp: Let_def distinct_map_set split: option.splits)

lemma partition_uncached:
  "snd (partitionCached c hexCodes) = filter (\<lambda>n. map_of c n = None) (map normalizeHex hexCodes)"
  by (simp add: partitionCached_def partition_step_uncached)

lemma partition_results:
  "map_of (fst (partitionCached c hexCodes)) n =
     (if n \<in> normalizeHex ` set hexCodes then map_of c n else None)"
  by (simp add: partitionCached_def partition_step_results)

lemma partition_distinct: "distinct (map fst (fst (partitionCached c hexCodes)))"
  by (simp add: partitionCached_def partition_step_distinct)

lemma resolve_fold:
  "foldl (\<lambda>(res, c) hex.
            let fb = heuristicFallback fl hex in (map_set hex fb res, map_set hex fb c))
     (res, c) unc = (fallbackAll fl res unc, fallbackAll fl c unc)"
  unfolding fallbackAll_def
  by (induction unc arbitrary: res c) (simp_all add: Let_def)

lemma resolveLocally_eq:
  "resolveLocally fl env st results uncached =
     (fallbackAll fl results uncached,
      persistCache env (st\<lparr>cache := fallbackAll fl (cache st) uncached\<rparr>))"
  by (simp add: resolveLocally_def resolve_fold)

section \<open>Remote failure\<close>

lemma fetchStart_eq:
  "fetchStart fl env st hexCodes =
     (if uncachedOf st hexCodes = [] then Done (cachedOf st hexCodes) st
      else if noCredential (apiKey env) then
        Done (fallbackAll fl (cachedOf st hexCodes) (uncachedOf st hexCodes))
          (persistCache env (st\<lparr>cache := fallbackAll fl (cache st) (uncachedOf st hexCodes)\<rparr>))
      else Await \<lparr>p_results = cachedOf st hexCodes, p_uncached = uncachedOf st hexCodes,
                   p_request = requestFor (apiKey env) (uncachedOf st hexCodes)\<rparr>)"
  by (simp add: fetchStart_def uncachedOf_def cachedOf_def resolveLocally_eq split: prod.splits)

lemma uncachedOf_eq:
  "uncachedOf st hexCodes = filter (\<lambda>n. map_of (cache st) n = None) (map normalizeHex hexCodes)"
  by (simp add: uncachedOf_def partition_uncached)

lemma cachedOf_eq:
  "map_of (cachedOf st hexCodes) n =
     (if n \<in> normalizeHex ` set hexCodes then map_of (cache st) n else None)"
  by (simp add: cachedOf_def partition_results)

lemma map_of_fill_empty:
  "map_of (fillFallback fl req []) h = (if h \<in> set req then Some (heuristicFallback fl h) else None)"
  by (simp add: map_of_fillFallback)

lemma parse_failed:
  "pl = Unparseable \<or> pl = NotIterable \<Longrightarrow> parseAiResponse fl pl req = fillFallback fl req []"
  by (auto simp: parseAiResponse_def)

lemma finish_failed:
  assumes "remoteFailed outcome"
  shows "map_of (fst (fetchFinish fl env p outcome st)) h =
           (if h \<in> set (p_uncached p) then Some (heuristicFallback fl h)
            else map_of (p_results p) h)"
proof (cases outcome)
  case FetchRejected
  then show ?thesis by (simp add: fetchFinish_def map_of_fallbackAll)
next
  case (Response status body)
  show ?thesis
  proof (cases "response_ok status")
    case False
    then show ?thesis by (simp add: Response fetchFinish_def map_of_fallbackAll)
  next
    case True
    show ?thesis
    proof (cases body)
      case NoText
      then show ?thesis by (simp add: Response True fetchFinish_def map_of_fallbackAll)
    next
      case (ResponseText pl)
      have pl: "pl = Unparseable \<or> pl = NotIterable"
        using assms True by (cases pl) (simp_all add: remoteFailed_def Response ResponseText)
      have "fst (fetchFinish fl env p outcome st) =
            fst (mergeParsed (p_results p) (cache st) (fillFallback fl (p_uncached p) []))"
        by (simp add: Response True ResponseText fetchFinish_def parse_failed [OF pl]
            split: prod.splits)
      then show ?thesis
        by (simp add: mergeParsed_results distinct_fillFallback map_of_fill_empty)
    qed
  qed
qed

lemma finish_transport_failed:
  "transportFailed outcome \<Longrightarrow>
   fetchFinish fl env p outcome st = (fallbackAll fl (p_results p) (p_uncached p), st)"
  by (cases outcome) (simp_all add: transportFailed_def fetchFinish_def)

lemma batch_results:
  "fst (fetchAiCmykBatch fl env outcome st hexCodes) =
     (case fetchStart fl env st hexCodes of
        Done results st' \<Rightarrow> results
      | Await p \<Rightarrow> fst (fetchFinish fl env p outcome st))"
  by (simp add: fetchAiCmykBatch_def split: started.splits prod.splits)

lemma batch_state:
  "fst (snd (fetchAiCmykBatch fl env outcome st hexCodes)) =
     (case fetchStart fl env st hexCodes of
        Done results st' \<Rightarrow> st'
      | Await p \<Rightarrow> snd (fetchFinish fl env p outcome st))"
  by (simp add: fetchAiCmykBatch_def split: started.splits prod.splits)

lemma batch_requests:
  "snd (snd (fetchAiCmykBatch fl env outcome st hexCodes)) =
     (case fetchStart fl env st hexCodes of
        Done results st' \<Rightarrow> []
      | Await p \<Rightarrow> [p_request p])"
  by (simp add: fetchAiCmykBatch_def split: started.splits prod.splits)

text \<open>
  Claim C2. When the remote call fails (\<open>fetch\<close> rejects, the status is not ok, the body
  gives no text, or the text does not parse to an array), every requested hex that was
  not cached is in the returned map with the recipe of \<open>heuristicFallback\<close>, every cached
  one with its cache entry, and the map has no other key: nothing comes from the payload.
\<close>

theorem remote_failure_falls_back:
  assumes "remoteFailed outcome"
  shows "(\<forall>h\<in>set hexCodes.
            map_of (fst (fetchAiCmykBatch fl env outcome st hexCodes)) (normalizeHex h) =
              (case map_of (cache st) (normalizeHex h) of
                 None \<Rightarrow> Some (heuristicFallback fl (normalizeHex h))
               | Some cached \<Rightarrow> Some cached)) \<and>
         (\<forall>n. n \<notin> normalizeHex ` set hexCodes \<longrightarrow>
            map_of (fst (fetchAiCmykBatch fl env outcome st hexCodes)) n = None)"
proof -
  have u: "\<And>n. n \<in> set (uncachedOf st hexCodes) \<longleftrightarrow>
                n \<in> normalizeHex ` set hexCodes \<and> map_of (cache st) n = None"
    by (auto simp: uncachedOf_eq)
  have r: "\<And>n. map_of (fst (fetchAiCmykBatch fl env outcome st hexCodes)) n =
             (if n \<in> set (uncachedOf st hexCodes) then Some (heuristicFallback fl n)
              else map_of (cachedOf st hexCodes) n)"
  proof -
    fix n
    show "map_of (fst (fetchAiCmykBatch fl env outcome st hexCodes)) n =
             (if n \<in> set (uncachedOf st hexCodes) then Some (heuristicFallback fl n)
              else map_of (cachedOf st hexCodes) n)"
    proof (cases "uncachedOf st hexCodes = []")
      case True
      then show ?thesis by (simp add: batch_results fetchStart_eq)
    next
      case False
      show ?thesis
      proof (cases "noCredential (apiKey env)")
        case True
        then show ?thesis
          using False by (simp add: batch_results fetchStart_eq map_of_fallbackAll)
      next
        case nc: False
        then show ?thesis
          using False by (simp add: batch_results fetchStart_eq finish_failed [OF assms])
      qed
    qed
  qed
  show ?thesis
    by (auto simp: r u cachedOf_eq split: option.splits)
qed

theorem remote_failure_falls_back_witness:
  "remoteFailed (Response 500 NoText) \<and>
   map_of (fst (fetchAiCmykBatch exact \<lparr>apiKey = Some ''key'', storage_full = False\<rparr>
                  (Response 500 NoText) \<lparr>cache = [], storage = None\<rparr> [''#000000'', ''#FFFFFF'']))
     ''#000000'' = Some (heuristicFallback exact ''#000000'') \<and>
   map_of (fst (fetchAiCmykBatch exact \<lparr>apiKey = Some ''key'', storage_full = False\<rparr>
                  (Response 500 NoText) \<lparr>cache = [], storage = None\<rparr> [''#000000'', ''#FFFFFF'']))
     ''#FFFFFF'' = Some (heuristicFallback exact ''#FFFFFF'')"
proof -
  have f: "remoteFailed (Response 500 NoText)"
    by (simp add: remoteFailed_def response_ok_def)
  show ?thesis
    using f remote_failure_falls_back [OF f, of "[''#000000'', ''#FFFFFF'']" exact
        "\<lparr>apiKey = Some ''key'', storage_full = False\<rparr>" "\<lparr>cache = [], storage = None\<rparr>"]
    by (simp add: normalizeHex_black normalizeHex_white)
qed

text \<open>
  Claim C10. When \<open>fetch\<close> throws or the status is not ok, the continuation returns the
  state it found: neither the in-memory cache nor the stored snapshot changes, although
  the returned map holds a heuristic recipe for every uncached hex. Without a credential
  the same recipes are written to the cache and \<open>persistCache\<close> stores its last 200
  entries (unless storage is full).
\<close>

theorem transport_failure_leaves_cache:
  "(transportFailed outcome \<longrightarrow>
      fetchFinish fl env p outcome st = (fallbackAll fl (p_results p) (p_uncached p), st)) \<and>
   (transportFailed outcome \<and> \<not> noCredential (apiKey env) \<longrightarrow>
      fst (snd (fetchAiCmykBatch fl env outcome st hexCodes)) = st \<and>
      (\<forall>h\<in>set (uncachedOf st hexCodes).
         map_of (fst (fetchAiCmykBatch fl env outcome st hexCodes)) h =
           Some (heuristicFallback fl h) \<and>
         map_of (cache (fst (snd (fetchAiCmykBatch fl env outcome st hexCodes)))) h = None)) \<and>
   (noCredential (apiKey env) \<and> uncachedOf st hexCodes \<noteq> [] \<longrightarrow>
      (\<forall>h\<in>set (uncachedOf st hexCodes).
         map_of (cache (fst (snd (fetchAiCmykBatch fl env outcome st hexCodes)))) h =
           Some (heuristicFallback fl h)) \<and>
      (\<not> storage_full env \<longrightarrow>
         storage (fst (snd (fetchAiCmykBatch fl env outcome st hexCodes))) =
           Some (drop (length (cache (fst (snd (fetchAiCmykBatch fl env outcome st hexCodes)))) - 200)
                  (cache (fst (snd (fetchAiCmykBatch fl env outcome st hexCodes)))))))"
proof (intro conjI impI)
  assume "transportFailed outcome"
  then show "fetchFinish fl env p outcome st = (fallbackAll fl (p_results p) (p_uncached p), st)"
    by (rule finish_transport_failed)
next
  assume a: "transportFailed outcome \<and> \<not> noCredential (apiKey env)"
  then have t: "transportFailed outcome" and nc: "\<not> noCredential (apiKey env)" by simp_all
  show s: "fst (snd (fetchAiCmykBatch fl env outcome st hexCodes)) = st"
    using nc by (simp add: batch_state fetchStart_eq finish_transport_failed [OF t])
  have r: "fst (fetchAiCmykBatch fl env outcome st hexCodes) =
           (if uncachedOf st hexCodes = [] then cachedOf st hexCodes
            else fallbackAll fl (cachedOf st hexCodes) (uncachedOf st hexCodes))"
    using nc by (simp add: batch_results fetchStart_eq finish_transport_failed [OF t])
  show "\<forall>h\<in>set (uncachedOf st hexCodes).
         map_of (fst (fetchAiCmykBatch fl env outcome st hexCodes)) h =
           Some (heuristicFallback fl h) \<and>
         map_of (cache (fst (snd (fetchAiCmykBatch fl env outcome st hexCodes)))) h = None"
  proof
    fix h assume h: "h \<in> set (uncachedOf st hexCodes)"
    then have "uncachedOf st hexCodes \<noteq> []" by auto
    moreover have "map_of (cache st) h = None" using h by (simp add: uncachedOf_eq)
    ultimately show "map_of (fst (fetchAiCmykBatch fl env outcome st hexCodes)) h =
           Some (heuristicFallback fl h) \<and>
         map_of (cache (fst (snd (fetchAiCmykBatch fl env outcome st hexCodes)))) h = None"
      using h by (simp add: s r map_of_fallbackAll)
  qed
next
  assume a: "noCredential (apiKey env) \<and> uncachedOf st hexCodes \<noteq> []"
  then have s: "fst (snd (fetchAiCmykBatch fl env outcome st hexCodes)) =
      persistCache env (st\<lparr>cache := fallbackAll fl (cache st) (uncachedOf st hexCodes)\<rparr>)"
    by (simp add: batch_state fetchStart_eq)
  have c: "cache (persistCache env (st\<lparr>cache := fallbackAll fl (cache st) (uncachedOf st hexCodes)\<rparr>))
           = fallbackAll fl (cache st) (uncachedOf st hexCodes)"
    by (simp add: persistCache_def)
  show "\<forall>h\<in>set (uncachedOf st hexCodes).
         map_of (cache (fst (snd (fetchAiCmykBatch fl env outcome st hexCodes)))) h =
           Some (heuristicFallback fl h)"
    by (simp add: s c map_of_fallbackAll)
  assume "\<not> storage_full env"
  then show "storage (fst (snd (fetchAiCmykBatch fl env outcome st hexCodes))) =
           Some (drop (length (cache (fst (snd (fetchAiCmykBatch fl env outcome st hexCodes)))) - 200)
                  (cache (fst (snd (fetchAiCmykBatch fl env outcome st hexCodes)))))"
    by (simp add: s persistCache_def)
qed

lemma uncachedOf_empty_cache:
  "uncachedOf \<lparr>cache = [], storage = s\<rparr> hexCodes = map normalizeHex hexCodes"
  by (simp add: uncachedOf_eq)

theorem transport_failure_leaves_cache_witness:
  "transportFailed (Response 503 NoText) \<and> \<not> noCredential (Some ''key'') \<and>
   fst (snd (fetchAiCmykBatch exact \<lparr>apiKey = Some ''key'', storage_full = False\<rparr>
               (Response 503 NoText) \<lparr>cache = [], storage = None\<rparr> [''#000000''])) =
     \<lparr>cache = [], storage = None\<rparr> \<and>
   map_of (fst (fetchAiCmykBatch exact \<lparr>apiKey = Some ''key'', storage_full = False\<rparr>
               (Response 503 NoText) \<lparr>cache = [], storage = None\<rparr> [''#000000''])) ''#000000'' =
     Some (heuristicFallback exact ''#000000'') \<and>
   noCredential None \<and>
   map_of (cache (fst (snd (fetchAiCmykBatch exact \<lparr>apiKey = None, storage_full = False\<rparr>
               (Response 503 NoText) \<lparr>cache = [], storage = None\<rparr> [''#000000''])))) ''#000000'' =
     Some (heuristicFallback exact ''#000000'') \<and>
   storage (fst (snd (fetchAiCmykBatch exact \<lparr>apiKey = None, storage_full = False\<rparr>
               (Response 503 NoText) \<lparr>cache = [], storage = None\<rparr> [''#000000'']))) \<noteq> None"
proof -
  have t: "transportFailed (Response 503 NoText)"
    by (simp add: transportFailed_def response_ok_def)
  have k: "\<not> noCredential (Some ''key'')" "noCredential None"
    by (simp_all add: noCredential_def)
  have u: "uncachedOf \<lparr>cache = [], storage = None\<rparr> [''#000000''] = [''#000000'']"
    by (simp add: uncachedOf_empty_cache normalizeHex_black)
  show ?thesis
    using t k
      transport_failure_leaves_cache [of "Response 503 NoText" exact
        "\<lparr>apiKey = Some ''key'', storage_full = False\<rparr>" _ "\<lparr>cache = [], storage = None\<rparr>"
        "[''#000000'']"]
      transport_failure_leaves_cache [of "Response 503 NoText" exact
        "\<lparr>apiKey = None, storage_full = False\<rparr>" _ "\<lparr>cache = [], storage = None\<rparr>"
        "[''#000000'']"]
    by (simp add: u)
qed

lemma distinct_fallbackAll:
  "distinct (map fst res) \<Longrightarrow> distinct (map fst (fallbackAll fl res unc))"
  unfolding fallbackAll_def
  by (induction unc arbitrary: res) (simp_all add: distinct_map_set)

lemma distinct_mergeParsed:
  "distinct (map fst res) \<Longrightarrow> distinct (map fst (fst (mergeParsed res c parsed)))"
  unfolding mergeParsed_def
  by (induction parsed arbitrary: res c) (auto simp: distinct_map_set)

lemma distinct_cachedOf: "distinct (map fst (cachedOf st hexCodes))"
  by (simp add: cachedOf_def partition_distinct)

lemma finish_results:
  "fst (fetchFinish fl env p outcome st) =
     (case outcome of
        FetchRejected \<Rightarrow> fallbackAll fl (p_results p) (p_uncached p)
      | Response status body \<Rightarrow>
          if \<not> response_ok status then fallbackAll fl (p_results p) (p_uncached p)
          else (case body of
                  NoText \<Rightarrow> fallbackAll fl (p_results p) (p_uncached p)
                | ResponseText pl \<Rightarrow>
                    fst (mergeParsed (p_results p) (cache st)
                           (parseAiResponse fl pl (p_uncached p)))))"
  by (simp add: fetchFinish_def split: remote_outcome.splits response_body.splits prod.splits)

lemma finish_state:
  "snd (fetchFinish fl env p outcome st) =
     (case outcome of
        FetchRejected \<Rightarrow> st
      | Response status body \<Rightarrow>
          if \<not> response_ok status then st
          else (case body of
                  NoText \<Rightarrow> st
                | ResponseText pl \<Rightarrow>
                    persistCache env
                      (st\<lparr>cache := snd (mergeParsed (p_results p) (cache st)
                                        (parseAiResponse fl pl (p_uncached p)))\<rparr>)))"
  by (simp add: fetchFinish_def split: remote_outcome.splits response_body.splits prod.splits)

lemma distinct_finish:
  "distinct (map fst (p_results p)) \<Longrightarrow> distinct (map fst (fst (fetchFinish fl env p outcome st)))"
  by (simp add: finish_results distinct_fallbackAll distinct_mergeParsed
      split: remote_outcome.splits response_body.splits)

lemma distinct_batch: "distinct (map fst (fst (fetchAiCmykBatch fl env outcome st hexCodes)))"
  by (simp add: batch_results fetchStart_eq distinct_cachedOf distinct_fallbackAll distinct_finish)

lemma count_uncached:
  "count_list (uncachedOf st hexCodes) n =
     (if map_of (cache st) n = None then count_list (map normalizeHex hexCodes) n else 0)"
proof -
  have "\<And>xs. count_list (filter (\<lambda>n. map_of (cache st) n = None) xs) n =
     (if map_of (cache st) n = None then count_list xs n else 0)"
  proof -
    fix xs show "count_list (filter (\<lambda>n. map_of (cache st) n = None) xs) n =
     (if map_of (cache st) n = None then count_list xs n else 0)"
      by (induction xs) auto
  qed
  then show ?thesis by (simp add: uncachedOf_eq)
qed

text \<open>
  Claim C9, as the code has it. A call sends no request when nothing is uncached or
  there is no credential, and exactly one otherwise. Its prompt is built from \<open>uncached\<close>,
  which holds the normalized uncached inputs in input order, one for every occurrence in
  the input: a hex that is given twice is listed twice. Only the returned map has each
  key once.
\<close>

theorem one_request_per_call:
  "snd (snd (fetchAiCmykBatch fl env outcome st hexCodes)) =
     (if uncachedOf st hexCodes = [] \<or> noCredential (apiKey env) then []
      else [requestFor (apiKey env) (uncachedOf st hexCodes)]) \<and>
   length (snd (snd (fetchAiCmykBatch fl env outcome st hexCodes))) \<le> 1 \<and>
   req_text (requestFor (apiKey env) (uncachedOf st hexCodes)) =
     buildPrompt (uncachedOf st hexCodes) \<and>
   uncachedOf st hexCodes =
     filter (\<lambda>n. map_of (cache st) n = None) (map normalizeHex hexCodes) \<and>
   count_list (uncachedOf st hexCodes) n =
     (if map_of (cache st) n = None then count_list (map normalizeHex hexCodes) n else 0) \<and>
   distinct (map fst (fst (fetchAiCmykBatch fl env outcome st hexCodes)))"
  by (simp add: batch_requests fetchStart_eq requestFor_def uncachedOf_eq [symmetric]
      count_uncached distinct_batch)

theorem one_request_per_call_witness:
  "snd (snd (fetchAiCmykBatch exact \<lparr>apiKey = Some ''key'', storage_full = False\<rparr> FetchRejected
               \<lparr>cache = [], storage = None\<rparr> [''#000000'', ''#FFFFFF''])) =
     [requestFor (Some ''key'') [''#000000'', ''#FFFFFF'']] \<and>
   count_list (uncachedOf \<lparr>cache = [], storage = None\<rparr> [''#000000'', ''#FFFFFF'']) ''#000000'' = 1"
proof -
  have u: "uncachedOf \<lparr>cache = [], storage = None\<rparr> [''#000000'', ''#FFFFFF''] =
           [''#000000'', ''#FFFFFF'']"
    by (simp add: uncachedOf_empty_cache normalizeHex_black normalizeHex_white)
  show ?thesis
    using one_request_per_call [of exact "\<lparr>apiKey = Some ''key'', storage_full = False\<rparr>"
        FetchRejected "\<lparr>cache = [], storage = None\<rparr>" "[''#000000'', ''#FFFFFF'']" "''#000000''"]
    by (simp add: u noCredential_def normalizeHex_black normalizeHex_white)
qed

lemma normalizeHex_abcdef:
  "normalizeHex ''#abcdef'' = ''#ABCDEF''" "normalizeHex ''#ABCDEF'' = ''#ABCDEF''"
  by (simp_all add: normalizeHex_def isValidHex_def startsWithHash_def isHexDigit_def
      toUpperCase_def toUpperCaseChar_def)

theorem duplicate_hex_counterexample:
  "snd (snd (fetchAiCmykBatch exact \<lparr>apiKey = Some ''key'', storage_full = False\<rparr> FetchRejected
               \<lparr>cache = [], storage = None\<rparr> [''#abcdef'', ''#ABCDEF''])) =
     [requestFor (Some ''key'') [''#ABCDEF'', ''#ABCDEF'']] \<and>
   req_text (requestFor (Some ''key'') [''#ABCDEF'', ''#ABCDEF'']) =
     buildPrompt [''#ABCDEF'', ''#ABCDEF''] \<and>
   hexList [''#ABCDEF'', ''#ABCDEF''] = quoted ''#ABCDEF'' @ '', '' @ quoted ''#ABCDEF'' \<and>
   count_list [''#ABCDEF'', ''#ABCDEF''] ''#ABCDEF'' = 2"
  by (simp add: batch_requests fetchStart_eq uncachedOf_empty_cache normalizeHex_abcdef
      noCredential_def requestFor_def hexList_def)

section \<open>Cache hits\<close>

lemma set_map_set: "set (map_set k v m) \<subseteq> insert (k, v) (set m)"
  by (induction m) (auto split: if_splits)







section \<open>Remote payloads\<close>

lemma clamp_Num: "clamp (Num x) = Num (max 0 (min 100 (roundR x)))"
  by (simp add: clamp_def)

lemma clamp_special: "clamp PosInf = Num 100" "clamp NegInf = Num 0" "clamp NaN = NaN"
  by (simp_all add: clamp_def)

lemma isInk_of_int: "0 \<le> j \<Longrightarrow> j \<le> 100 \<Longrightarrow> isInk (Num (of_int j))"
  by (simp add: isInk_def)

lemma isInk_clamp_Num: "isInk (clamp (Num x))"
proof -
  have "max 0 (min 100 (roundR x)) = of_int (max 0 (min 100 \<lfloor>x + 1 / 2\<rfloor>))"
    by (simp add: roundR_def max_def min_def)
  then show ?thesis
    using isInk_of_int [of "max 0 (min 100 \<lfloor>x + 1 / 2\<rfloor>)"] by (simp add: clamp_Num)
qed

lemma isInk_clamp: "n \<noteq> NaN \<Longrightarrow> isInk (clamp n)"
proof (cases n)
  case (Num x)
  then show ?thesis by (simp add: isInk_clamp_Num)
next
  case PosInf
  then show ?thesis by (simp add: clamp_special isInk_def)
next
  case NegInf
  then show ?thesis by (simp add: clamp_special isInk_def)
qed simp

lemma smart_aiResult:
  "cmyk4 (smartOf (aiResult fl item)) =
     (clamp (item_c item), clamp (item_m item), clamp (item_y item), clamp (item_k item))"
  by (simp add: aiResult_def Let_def smartOf_def cmyk4_def)

lemma parseItems_entries:
  "(k, v) \<in> set (fst (parseItems fl items res)) \<Longrightarrow>
   (k, v) \<in> set res \<or> (\<exists>item. Item item \<in> set items \<and> v = aiResult fl item)"
proof (induction fl items res rule: parseItems.induct)
  case (3 fl item items results)
  then have "(k, v) \<in> set (map_set (normalizeHex (item_hex item)) (aiResult fl item) results) \<or>
             (\<exists>i. Item i \<in> set items \<and> v = aiResult fl i)"
    by simp
  then show ?case
    using set_map_set [of "normalizeHex (item_hex item)" "aiResult fl item" results] by auto
qed simp_all

lemma fillFallback_entries:
  "(k, v) \<in> set (fillFallback fl req res) \<Longrightarrow> (k, v) \<in> set res \<or> v = heuristicFallback fl k"
  unfolding fillFallback_def
proof (induction req arbitrary: res)
  case Nil
  then show ?case by simp
next
  case (Cons a req)
  show ?case
  proof (cases "map_has a res")
    case True
    then show ?thesis using Cons by simp
  next
    case False
    then have "(k, v) \<in> set (map_set a (heuristicFallback fl a) res) \<or> v = heuristicFallback fl k"
      using Cons by simp
    then show ?thesis using set_map_set [of a "heuristicFallback fl a" res] by auto
  qed
qed

lemma parsed_entries:
  assumes "(k, v) \<in> set (parseAiResponse fl pl req)"
  shows "v = heuristicFallback fl k \<or>
         (\<exists>items item. pl = Elements items \<and> Item item \<in> set items \<and> v = aiResult fl item)"
proof (cases pl)
  case (Elements items)
  obtain results threw where p: "parseItems fl items [] = (results, threw)"
    by (cases "parseItems fl items []")
  have r: "(k, v) \<in> set results \<Longrightarrow> \<exists>item. Item item \<in> set items \<and> v = aiResult fl item"
    using parseItems_entries [of k v fl items "[]"] p by simp
  have "(k, v) \<in> set results \<or> v = heuristicFallback fl k"
  proof (cases threw)
    case True
    then have "(k, v) \<in> set (fillFallback fl req results)"
      using assms by (simp add: parseAiResponse_def Elements p)
    then show ?thesis by (rule fillFallback_entries)
  next
    case False
    then have "(k, v) \<in> set results" using assms by (simp add: parseAiResponse_def Elements p)
    then show ?thesis by (rule disjI1)
  qed
  then show ?thesis
  proof
    assume "(k, v) \<in> set results"
    then have "\<exists>item. Item item \<in> set items \<and> v = aiResult fl item" by (rule r)
    then obtain item where "Item item \<in> set items" "v = aiResult fl item"
      by (elim exE conjE)
    then have "\<exists>items item. pl = Elements items \<and> Item item \<in> set items \<and> v = aiResult fl item"
      using Elements by (intro exI conjI)
    then show ?thesis by (rule disjI2)
  next
    assume "v = heuristicFallback fl k"
    then show ?thesis by (rule disjI1)
  qed
next
  case Unparseable
  then have "(k, v) \<in> set (fillFallback fl req [])" using assms by (simp add: parseAiResponse_def)
  then have "(k, v) \<in> set [] \<or> v = heuristicFallback fl k" by (rule fillFallback_entries)
  then show ?thesis by simp
next
  case NotIterable
  then have "(k, v) \<in> set (fillFallback fl req [])" using assms by (simp add: parseAiResponse_def)
  then have "(k, v) \<in> set [] \<or> v = heuristicFallback fl k" by (rule fillFallback_entries)
  then show ?thesis by simp
qed

lemma merged_lookup:
  assumes "map_of (parseAiResponse fl pl req) h = Some v"
  shows "v = heuristicFallback fl h \<or>
         (\<exists>items item. pl = Elements items \<and> Item item \<in> set items \<and> v = aiResult fl item)"
  using parsed_entries [OF map_of_SomeD [OF assms]] .

text \<open>
  Claim C8, as the code has it. \<open>clamp\<close> rounds a number to the nearest integer and
  clamps it into 0 to 100 (130.7 gives 100, the infinities give 100 and 0); it returns NaN
  for NaN, which is what a component that is absent or not numeric converts to. The
  smart recipe built from an item holds the clamped components, and every entry that a
  successful response puts into the returned map, the cache or the stored snapshot is
  such a recipe, a heuristic recipe, or an entry that was there before.
\<close>

theorem remote_components_clamped:
  "(n \<noteq> NaN \<longrightarrow> isInk (clamp n)) \<and>
   clamp (Num x) = Num (max 0 (min 100 (roundR x))) \<and>
   clamp (Num (1307 / 10)) = Num 100 \<and>
   clamp PosInf = Num 100 \<and> clamp NegInf = Num 0 \<and> clamp NaN = NaN \<and>
   cmyk4 (smartOf (aiResult fl item)) =
     (clamp (item_c item), clamp (item_m item), clamp (item_y item), clamp (item_k item)) \<and>
   (item_c item \<noteq> NaN \<and> item_m item \<noteq> NaN \<and> item_y item \<noteq> NaN \<and> item_k item \<noteq> NaN \<longrightarrow>
      isInk (cmyk_c (smartOf (aiResult fl item))) \<and> isInk (cmyk_m (smartOf (aiResult fl item))) \<and>
      isInk (cmyk_y (smartOf (aiResult fl item))) \<and> isInk (cmyk_k (smartOf (aiResult fl item)))) \<and>
   (response_ok status \<and>
    map_of (fst (fetchFinish fl env p (Response status (ResponseText pl)) st)) h = Some v \<longrightarrow>
      map_of (p_results p) h = Some v \<or> v = heuristicFallback fl h \<or>
      (\<exists>items item. pl = Elements items \<and> Item item \<in> set items \<and> v = aiResult fl item)) \<and>
   (response_ok status \<and>
    map_of (cache (snd (fetchFinish fl env p (Response status (ResponseText pl)) st))) h = Some v \<longrightarrow>
      map_of (cache st) h = Some v \<or> v = heuristicFallback fl h \<or>
      (\<exists>items item. pl = Elements items \<and> Item item \<in> set items \<and> v = aiResult fl item)) \<and>
   (response_ok status \<and> \<not> storage_full env \<longrightarrow>
      (\<exists>entries. storage (snd (fetchFinish fl env p (Response status (ResponseText pl)) st)) =
           Some entries \<and>
         set entries \<subseteq> set (cache (snd (fetchFinish fl env p (Response status (ResponseText pl)) st)))))"
proof (intro conjI impI)
  show "clamp (Num (1307 / 10)) = Num 100"
    by (simp add: clamp_Num roundR_def)
next
  assume n: "item_c item \<noteq> NaN \<and> item_m item \<noteq> NaN \<and> item_y item \<noteq> NaN \<and> item_k item \<noteq> NaN"
  have s: "cmyk_c (smartOf (aiResult fl item)) = clamp (item_c item)"
    "cmyk_m (smartOf (aiResult fl item)) = clamp (item_m item)"
    "cmyk_y (smartOf (aiResult fl item)) = clamp (item_y item)"
    "cmyk_k (smartOf (aiResult fl item)) = clamp (item_k item)"
    using smart_aiResult [of fl item] by (simp_all add: cmyk4_def)
  show "isInk (cmyk_c (smartOf (aiResult fl item)))" using n by (simp add: s isInk_clamp)
  show "isInk (cmyk_m (smartOf (aiResult fl item)))" using n by (simp add: s isInk_clamp)
  show "isInk (cmyk_y (smartOf (aiResult fl item)))" using n by (simp add: s isInk_clamp)
  show "isInk (cmyk_k (smartOf (aiResult fl item)))" using n by (simp add: s isInk_clamp)
next
  assume a: "response_ok status \<and>
    map_of (fst (fetchFinish fl env p (Response status (ResponseText pl)) st)) h = Some v"
  then have ok: "response_ok status"
    and m: "map_of (fst (fetchFinish fl env p (Response status (ResponseText pl)) st)) h = Some v"
    by simp_all
  have "(case map_of (parseAiResponse fl pl (p_uncached p)) h of
                Some w \<Rightarrow> Some w | None \<Rightarrow> map_of (p_results p) h) = Some v"
    using m by (simp add: finish_results ok mergeParsed_results distinct_parseAiResponse)
  then show "map_of (p_results p) h = Some v \<or> v = heuristicFallback fl h \<or>
      (\<exists>items item. pl = Elements items \<and> Item item \<in> set items \<and> v = aiResult fl item)"
    using merged_lookup [of fl pl "p_uncached p" h v] by (auto split: option.splits)
next
  assume a: "response_ok status \<and>
    map_of (cache (snd (fetchFinish fl env p (Response status (ResponseText pl)) st))) h = Some v"
  then have ok: "response_ok status"
    and m: "map_of (cache (snd (fetchFinish fl env p (Response status (ResponseText pl)) st))) h =
            Some v"
    by simp_all
  have "cache (snd (fetchFinish fl env p (Response status (ResponseText pl)) st)) =
        snd (mergeParsed (p_results p) (cache st) (parseAiResponse fl pl (p_uncached p)))"
    by (simp add: finish_state ok persistCache_def)
  then have "(case map_of (parseAiResponse fl pl (p_uncached p)) h of
                Some w \<Rightarrow> Some w | None \<Rightarrow> map_of (cache st) h) = Some v"
    using m by (simp add: mergeParsed_cache distinct_parseAiResponse)
  then show "map_of (cache st) h = Some v \<or> v = heuristicFallback fl h \<or>
      (\<exists>items item. pl = Elements items \<and> Item item \<in> set items \<and> v = aiResult fl item)"
    using merged_lookup [of fl pl "p_uncached p" h v] by (auto split: option.splits)
next
  assume "response_ok status \<and> \<not> storage_full env"
  then show "\<exists>entries. storage (snd (fetchFinish fl env p (Response status (ResponseText pl)) st)) =
           Some entries \<and>
         set entries \<subseteq> set (cache (snd (fetchFinish fl env p (Response status (ResponseText pl)) st)))"
    by (simp add: finish_state persistCache_def set_drop_subset)
qed (simp_all add: isInk_clamp clamp_Num clamp_special smart_aiResult)

theorem remote_components_clamped_witness:
  "Num (1307 / 10) \<noteq> NaN \<and> isInk (clamp (Num (1307 / 10))) \<and> clamp (Num (1307 / 10)) = Num 100 \<and>
   clamp (Num (- 3)) = Num 0 \<and> clamp (Num (5 / 2)) = Num 3"
  using remote_components_clamped [of "Num (1307 / 10)" "- 3"]
    remote_components_clamped [of "Num (1307 / 10)" "5 / 2"]
  by (simp add: roundR_def)

theorem missing_component_counterexample:
  "map (cmyk4 \<circ> smartOf \<circ> snd)
     (fst (fetchAiCmykBatch exact \<lparr>apiKey = Some ''key'', storage_full = False\<rparr>
        (Response 200 (ResponseText (Elements
           [Item \<lparr>item_hex = ''#112233'', item_c = NaN, item_m = Num 10, item_y = Num 20,
                  item_k = Num 30, item_explanation = ''none'', item_paper = []\<rparr>])))
        \<lparr>cache = [], storage = None\<rparr> [''#112233''])) =
     [(NaN, Num 10, Num 20, Num 30)] \<and>
   map (cmyk4 \<circ> smartOf \<circ> snd)
     (cache (fst (snd (fetchAiCmykBatch exact \<lparr>apiKey = Some ''key'', storage_full = False\<rparr>
        (Response 200 (ResponseText (Elements
           [Item \<lparr>item_hex = ''#112233'', item_c = NaN, item_m = Num 10, item_y = Num 20,
                  item_k = Num 30, item_explanation = ''none'', item_paper = []\<rparr>])))
        \<lparr>cache = [], storage = None\<rparr> [''#112233''])))) =
     [(NaN, Num 10, Num 20, Num 30)] \<and>
   \<not> isInk NaN"
proof -
  have n: "normalizeHex ''#112233'' = ''#112233''"
    by (simp add: normalizeHex_def isValidHex_def startsWithHash_def isHexDigit_def
        toUpperCase_def toUpperCaseChar_def)
  have c: "clamp (Num 10) = Num 10" "clamp (Num 20) = Num 20" "clamp (Num 30) = Num 30"
    by (simp_all add: clamp_Num roundR_def)
  show ?thesis
    by (simp add: batch_results batch_state fetchStart_eq uncachedOf_empty_cache cachedOf_def
        partitionCached_def n noCredential_def finish_results finish_state response_ok_def
        parseAiResponse_def mergeParsed_def persistCache_def smart_aiResult c clamp_special
        isInk_def)
qed

text \<open>
  Claim C1 fails on the code. Black and white are requested and the response is a
  well-formed array that covers black only: the returned map has no entry for white.
  The fallback loop of \<open>parseAiResponse\<close> is in its \<open>catch\<close> block, so it runs only when
  the \<open>try\<close> block throws: with a malformed second element in the same response, white
  does get its heuristic recipe.
\<close>

theorem partial_coverage_gap:
  "map fst
     (fst (fetchAiCmykBatch exact \<lparr>apiKey = Some ''key'', storage_full = False\<rparr>
        (Response 200 (ResponseText (Elements
           [Item \<lparr>item_hex = ''#000000'', item_c = Num 60, item_m = Num 40, item_y = Num 40,
                  item_k = Num 100, item_explanation = ''rich black'', item_paper = ''Coated''\<rparr>])))
        \<lparr>cache = [], storage = None\<rparr> [''#000000'', ''#FFFFFF''])) = [''#000000''] \<and>
   map_of
     (fst (fetchAiCmykBatch exact \<lparr>apiKey = Some ''key'', storage_full = False\<rparr>
        (Response 200 (ResponseText (Elements
           [Item \<lparr>item_hex = ''#000000'', item_c = Num 60, item_m = Num 40, item_y = Num 40,
                  item_k = Num 100, item_explanation = ''rich black'', item_paper = ''Coated''\<rparr>])))
        \<lparr>cache = [], storage = None\<rparr> [''#000000'', ''#FFFFFF''])) ''#FFFFFF'' = None \<and>
   map_of
     (fst (fetchAiCmykBatch exact \<lparr>apiKey = Some ''key'', storage_full = False\<rparr>
        (Response 200 (ResponseText (Elements
           [Item \<lparr>item_hex = ''#000000'', item_c = Num 60, item_m = Num 40, item_y = Num 40,
                  item_k = Num 100, item_explanation = ''rich black'', item_paper = ''Coated''\<rparr>,
            Malformed])))
        \<lparr>cache = [], storage = None\<rparr> [''#000000'', ''#FFFFFF''])) ''#FFFFFF'' =
     Some (heuristicFallback exact ''#FFFFFF'')"
  by (simp add: batch_results fetchStart_eq uncachedOf_empty_cache cachedOf_def
      partitionCached_def normalizeHex_black normalizeHex_white noCredential_def finish_results
      response_ok_def parseAiResponse_def mergeParsed_def fillFallback_def map_has_def)

section \<open>Staleness of refreshes\<close>

lemma inv_initial: "live_is_latest initial"
  by (simp add: live_is_latest_def initial_def)

lemma inv_runCleanup:
  assumes "live_is_latest h"
  shows "cleanup (runCleanup h) = None \<and>
         (\<forall>i < length (cancelled (runCleanup h)). cancelled (runCleanup h) ! i) \<and>
         mounted (runCleanup h) = mounted h \<and> aiResults (runCleanup h) = aiResults h \<and>
         isLoading (runCleanup h) = isLoading h"
proof (cases "cleanup h")
  case None
  then show ?thesis using assms by (auto simp: runCleanup_def live_is_latest_def)
next
  case (Some j)
  have "\<And>i. i < length (cancelled h) \<Longrightarrow> ((cancelled h)[j := True]) ! i"
  proof -
    fix i assume i: "i < length (cancelled h)"
    show "((cancelled h)[j := True]) ! i"
    proof (cases "i = j")
      case True
      then show ?thesis using i by simp
    next
      case False
      then have "cancelled h ! i" using assms Some i by (auto simp: live_is_latest_def)
      then show ?thesis using False by simp
    qed
  qed
  then show ?thesis by (simp add: runCleanup_def Some)
qed

lemma inv_after_cleanup:
  assumes "cleanup h = None" "\<forall>i < length (cancelled h). cancelled h ! i" "mounted h"
  shows "live_is_latest (runEffect colors h)"
  using assms by (auto simp: runEffect_def live_is_latest_def nth_append)

lemma inv_cleanup_effect:
  assumes "live_is_latest h" "mounted h"
  shows "live_is_latest (runEffect colors (runCleanup h))"
proof -
  have "cleanup (runCleanup h) = None \<and>
        (\<forall>i < length (cancelled (runCleanup h)). cancelled (runCleanup h) ! i) \<and>
        mounted (runCleanup h) = mounted h"
    using inv_runCleanup [OF assms(1)] by simp
  then show ?thesis using inv_after_cleanup assms(2) by simp
qed

lemma inv_step: "live_is_latest h \<Longrightarrow> live_is_latest (step ev h)"
proof (cases ev)
  case (Render colors)
  assume h: "live_is_latest h"
  let ?h = "h\<lparr>hexKey := Some (joinWith '','' (map rec_hex colors)), props := colors\<rparr>"
  show ?thesis
  proof (cases "mounted h \<and> hexKey h \<noteq> Some (joinWith '','' (map rec_hex colors))")
    case False
    then show ?thesis using h Render by (auto simp: live_is_latest_def)
  next
    case True
    have "live_is_latest ?h" "mounted ?h" using h True by (simp_all add: live_is_latest_def)
    then have "live_is_latest (runEffect colors (runCleanup ?h))"
      by (rule inv_cleanup_effect)
    then show ?thesis using True Render by simp
  qed
next
  case (Resolve i results)
  assume "live_is_latest h"
  then show ?thesis using Resolve by (simp add: live_is_latest_def)
next
  case (Reject i)
  assume "live_is_latest h"
  then show ?thesis using Reject by (simp add: live_is_latest_def)
next
  case Remount
  assume h: "live_is_latest h"
  show ?thesis
  proof (cases "mounted h")
    case True
    then show ?thesis using inv_cleanup_effect [OF h True] Remount by simp
  next
    case False
    then show ?thesis using h Remount by simp
  qed
next
  case Unmount
  assume h: "live_is_latest h"
  have "cleanup (runCleanup h) = None \<and>
        (\<forall>i < length (cancelled (runCleanup h)). cancelled (runCleanup h) ! i)"
    using inv_runCleanup [OF h] by simp
  then show ?thesis using Unmount by (simp add: live_is_latest_def)
qed

lemma inv_run: "live_is_latest (run evs)"
proof (induction evs rule: rev_induct)
  case Nil
  then show ?case by (simp add: run_def inv_initial)
next
  case (snoc ev evs)
  then show ?case using inv_step [of "run evs" ev] by (simp add: run_def)
qed

text \<open>
  Claim C3. In every state the hook can reach: the completion of a run is ignored once a
  later run has started; a completion that changes \<open>aiResults\<close> or \<open>isLoading\<close> belongs to
  the run started last, whose cleanup React still holds; and after unmount every
  completion, and every later render, leaves the state as it is.
\<close>

theorem stale_completion_is_ignored:
  "(i < j \<and> j < length (cancelled (run evs)) \<longrightarrow>
      step (Resolve i results) (run evs) = run evs \<and> step (Reject i) (run evs) = run evs) \<and>
   (aiResults (step (Resolve i results) (run evs)) \<noteq> aiResults (run evs) \<or>
    isLoading (step (Resolve i results) (run evs)) \<noteq> isLoading (run evs) \<or>
    isLoading (step (Reject i) (run evs)) \<noteq> isLoading (run evs) \<longrightarrow>
      Suc i = length (cancelled (run evs)) \<and> cleanup (run evs) = Some i) \<and>
   (\<not> mounted (run evs) \<longrightarrow>
      step (Resolve i results) (run evs) = run evs \<and> step (Reject i) (run evs) = run evs \<and>
      step (Render colors) (run evs) = run evs \<and> step Remount (run evs) = run evs)"
proof -
  have inv: "live_is_latest (run evs)" by (rule inv_run)
  have live: "i < length (cancelled (run evs)) \<and> \<not> cancelled (run evs) ! i \<Longrightarrow>
              cleanup (run evs) = Some i \<and> Suc i = length (cancelled (run evs))"
    using inv by (simp add: live_is_latest_def)
  have a: "i < j \<and> j < length (cancelled (run evs)) \<longrightarrow>
      step (Resolve i results) (run evs) = run evs \<and> step (Reject i) (run evs) = run evs"
    using live by auto
  have b: "aiResults (step (Resolve i results) (run evs)) \<noteq> aiResults (run evs) \<or>
    isLoading (step (Resolve i results) (run evs)) \<noteq> isLoading (run evs) \<or>
    isLoading (step (Reject i) (run evs)) \<noteq> isLoading (run evs) \<longrightarrow>
      Suc i = length (cancelled (run evs)) \<and> cleanup (run evs) = Some i"
    using live by (auto split: if_splits)
  have c: "\<not> mounted (run evs) \<longrightarrow>
      step (Resolve i results) (run evs) = run evs \<and> step (Reject i) (run evs) = run evs \<and>
      step (Render colors) (run evs) = run evs \<and> step Remount (run evs) = run evs"
    using live inv by (auto simp: live_is_latest_def)
  show ?thesis using a b c by blast
qed

theorem stale_completion_is_ignored_witness:
  "(0::nat) < 1 \<and>
   1 < length (cancelled (run [Render [\<lparr>rec_id = ''1'', rec_hex = ''#000000''\<rparr>],
                               Render [\<lparr>rec_id = ''2'', rec_hex = ''#FFFFFF''\<rparr>]])) \<and>
   step (Resolve 0 [(''#000000'', heuristicFallback exact ''#000000'')])
     (run [Render [\<lparr>rec_id = ''1'', rec_hex = ''#000000''\<rparr>],
           Render [\<lparr>rec_id = ''2'', rec_hex = ''#FFFFFF''\<rparr>]]) =
     run [Render [\<lparr>rec_id = ''1'', rec_hex = ''#000000''\<rparr>],
          Render [\<lparr>rec_id = ''2'', rec_hex = ''#FFFFFF''\<rparr>]] \<and>
   isLoading (step (Resolve 1 [])
     (run [Render [\<lparr>rec_id = ''1'', rec_hex = ''#000000''\<rparr>],
           Render [\<lparr>rec_id = ''2'', rec_hex = ''#FFFFFF''\<rparr>]])) \<noteq>
     isLoading (run [Render [\<lparr>rec_id = ''1'', rec_hex = ''#000000''\<rparr>],
                     Render [\<lparr>rec_id = ''2'', rec_hex = ''#FFFFFF''\<rparr>]]) \<and>
   cleanup (run [Render [\<lparr>rec_id = ''1'', rec_hex = ''#000000''\<rparr>],
                 Render [\<lparr>rec_id = ''2'', rec_hex = ''#FFFFFF''\<rparr>]]) = Some 1 \<and>
   \<not> mounted (run [Render [\<lparr>rec_id = ''1'', rec_hex = ''#000000''\<rparr>], Unmount]) \<and>
   step (Resolve 0 [(''#000000'', heuristicFallback exact ''#000000'')])
     (run [Render [\<lparr>rec_id = ''1'', rec_hex = ''#000000''\<rparr>], Unmount]) =
     run [Render [\<lparr>rec_id = ''1'', rec_hex = ''#000000''\<rparr>], Unmount]"
proof -
  let ?c1 = "\<lparr>rec_id = ''1'', rec_hex = ''#000000''\<rparr>"
  let ?c2 = "\<lparr>rec_id = ''2'', rec_hex = ''#FFFFFF''\<rparr>"
  have r2: "run [Render [?c1], Render [?c2]] =
            \<lparr>aiResults = [], isLoading = True, hexKey = Some ''#FFFFFF'',
             props = [?c2], cancelled = [True, False], cleanup = Some 1, mounted = True\<rparr>"
    by (simp add: run_def initial_def runCleanup_def runEffect_def)
  have ru: "run [Render [?c1], Unmount] =
            \<lparr>aiResults = [], isLoading = True, hexKey = Some ''#000000'',
             props = [?c1], cancelled = [True], cleanup = None, mounted = False\<rparr>"
    by (simp add: run_def initial_def runCleanup_def runEffect_def)
  have l: "isLoading (step (Resolve 1 []) (run [Render [?c1], Render [?c2]])) \<noteq>
           isLoading (run [Render [?c1], Render [?c2]])"
    by (simp add: r2)
  have m: "\<not> mounted (run [Render [?c1], Unmount])"
    by (simp add: ru)
  have len: "(0::nat) < 1 \<and> 1 < length (cancelled (run [Render [?c1], Render [?c2]]))"
    by (simp add: r2)
  have a: "step (Resolve 0 [(''#000000'', heuristicFallback exact ''#000000'')])
             (run [Render [?c1], Render [?c2]]) = run [Render [?c1], Render [?c2]]"
    using stale_completion_is_ignored [of 0 1 "[Render [?c1], Render [?c2]]"
        "[(''#000000'', heuristicFallback exact ''#000000'')]", THEN conjunct1] len
    by (rule mp [THEN conjunct1])
  have b: "Suc 1 = length (cancelled (run [Render [?c1], Render [?c2]])) \<and>
           cleanup (run [Render [?c1], Render [?c2]]) = Some 1"
    using stale_completion_is_ignored [of 1 2 "[Render [?c1], Render [?c2]]" "[]",
        THEN conjunct2, THEN conjunct1] disjI2 [OF disjI1 [OF l]]
    by (rule mp)
  have c: "step (Resolve 0 [(''#000000'', heuristicFallback exact ''#000000'')])
             (run [Render [?c1], Unmount]) = run [Render [?c1], Unmount]"
    using stale_completion_is_ignored [of 0 1 "[Render [?c1], Unmount]"
        "[(''#000000'', heuristicFallback exact ''#000000'')]", THEN conjunct2, THEN conjunct2] m
    by (rule mp [THEN conjunct1])
  show ?thesis
    using len a l b c m by (intro conjI) simp_all
qed

end
